theory Spec2Isabelle
  imports
    Complex_Main
    "HOL-Library.Word"
    "HOL-Library.Sublist"
    "HOL-Library.AList"
    "HOL-Library.Char_ord"
    "HOL-Library.List_Lexorder"
    "HOL-Library.Product_Lexorder"
begin

section \<open>Python and pandas values\<close>

text \<open>
  The pipeline of \<^verbatim>\<open>scripts/process_enrollment.py\<close> reads its tables with
  \<^verbatim>\<open>pd.read_csv(..., dtype=str)\<close>: a cell is a Python \<^verbatim>\<open>str\<close>, or the float
  \<^verbatim>\<open>nan\<close> where the field was empty. The helper functions are also written for
  \<^verbatim>\<open>None\<close> (\<^verbatim>\<open>plan_name or ""\<close>). A value is therefore one of the three below.
  Strings are lists of Isabelle's 8-bit characters, read as the code points 0 to 255.
\<close>

datatype pyval = PyNone | PyNaN | PyStr string

datatype error =
    TypeError
  | AttributeError
  | ValueError_missing_columns "string list"
  | ValueError_unpack
  | ValueError_set_column
  | ZeroDivisionError
  | OverflowError

text \<open>Python's truth value: \<^verbatim>\<open>None\<close> and \<^verbatim>\<open>""\<close> are false; \<^verbatim>\<open>nan\<close> is a non-zero float, hence true.\<close>

fun truthy :: "pyval \<Rightarrow> bool" where
  "truthy PyNone = False"
| "truthy PyNaN = True"
| "truthy (PyStr s) = (s \<noteq> [])"

text \<open>\<^verbatim>\<open>pd.isna\<close>, also the test behind \<^verbatim>\<open>dropna\<close> and behind the keys that \<^verbatim>\<open>groupby\<close> drops.\<close>

fun isna :: "pyval \<Rightarrow> bool" where
  "isna PyNone = True"
| "isna PyNaN = True"
| "isna (PyStr s) = False"

text \<open>
  \<^verbatim>\<open>str.lower()\<close> on the code points 0 to 255: the letters A to Z and the Latin-1 capitals
  192 to 222 (without the multiplication sign 215) move up by 32.
\<close>

definition py_lower_char :: "char \<Rightarrow> char" where
  "py_lower_char c =
     (let n = (of_char c :: nat)
      in if (65 \<le> n \<and> n \<le> 90) \<or> (192 \<le> n \<and> n \<le> 222 \<and> n \<noteq> 215)
         then char_of (n + 32) else c)"

definition lower :: "string \<Rightarrow> string" where
  "lower s = map py_lower_char s"

text \<open>
  \<^verbatim>\<open>str.upper()\<close> of one character, as the list of the code points of the result: the
  result can leave the range 0 to 255 (y with diaeresis 255 gives 376, the micro sign 181
  gives 924) and can be two characters (sharp s 223 gives SS).
\<close>

definition upper_char :: "char \<Rightarrow> nat list" where
  "upper_char c =
     (let n = (of_char c :: nat)
      in if (97 \<le> n \<and> n \<le> 122) \<or> (224 \<le> n \<and> n \<le> 254 \<and> n \<noteq> 247) then [n - 32]
         else if n = 223 then [83, 83]
         else if n = 255 then [376]
         else if n = 181 then [924]
         else [n])"

text \<open>Python's \<^verbatim>\<open>kw in s\<close> on strings: \<open>kw\<close> occurs in \<open>s\<close> as a contiguous block.\<close>

primrec contains :: "string \<Rightarrow> string \<Rightarrow> bool" where
  "contains [] kw = (kw = [])"
| "contains (c # cs) kw = (prefix kw (c # cs) \<or> contains cs kw)"

text \<open>\<^verbatim>\<open>(x or "").lower()\<close>: \<^verbatim>\<open>nan\<close> is true, so it survives the \<^verbatim>\<open>or\<close> and has no \<^verbatim>\<open>lower\<close>.\<close>

fun or_empty_lower :: "pyval \<Rightarrow> error + string" where
  "or_empty_lower PyNone = Inr []"
| "or_empty_lower PyNaN = Inl AttributeError"
| "or_empty_lower (PyStr s) = Inr (lower s)"

text \<open>
  A Python \<^verbatim>\<open>dict\<close> is an association list with distinct keys, in insertion order; storing
  under a key (\<^verbatim>\<open>d[k] = v\<close>) is \<^const>\<open>AList.update\<close>: the value of an existing key is
  replaced in place, a new key is appended. A dict display \<^verbatim>\<open>{k1: v1, k2: v2, ...}\<close> stores its
  items from left to right.
\<close>

definition dict_of_items :: "('k \<times> 'v) list \<Rightarrow> ('k \<times> 'v) list" where
  "dict_of_items kvs = foldl (\<lambda>d (k, v). AList.update k v d) [] kvs"

section \<open>The library\<close>

text \<open>
  What \<^verbatim>\<open>pd.to_numeric(..., errors='coerce')\<close> makes of one text: a number (the value of the
  float or integer it stores), no number (\<^verbatim>\<open>nan\<close>), or an infinity.
\<close>

datatype numeric = Number real | Not_a_number | Infinite

text \<open>
  The code runs on the pandas that is installed, and four things it relies on are not
  the same in every release. They are parameters of the functions below, so that every
  theorem holds for every release:
  \<^item> \<open>tuple_keys\<close>: iterating over \<^verbatim>\<open>df.groupby(['state'])\<close>, a grouping on a list of one
    column, yields the keys as 1-tuples (pandas from 2.0 on) and not as bare values
    (before 2.0);
  \<^item> \<open>object_dtype\<close>: a column read with \<^verbatim>\<open>dtype=str\<close> has the dtype \<^verbatim>\<open>object\<close>
    (pandas before 3);
  \<^item> \<open>to_numeric_other\<close>: what \<^verbatim>\<open>pd.to_numeric\<close> makes of a text that is neither a
    decimal integer nor free of digits and letters (decimal point, exponent, \<^verbatim>\<open>inf\<close>,
    blanks, a plus sign, words, large magnitudes), in the column at hand;
  \<^item> \<open>first_none\<close>: the aggregation \<^verbatim>\<open>'first'\<close> gives \<^verbatim>\<open>None\<close>, and not \<^verbatim>\<open>nan\<close>, for a
    group of missing values.
\<close>

record pandas =
  tuple_keys :: bool
  object_dtype :: bool
  to_numeric_other :: "string \<Rightarrow> numeric"
  first_none :: bool

section \<open>The static prefix table\<close>

text \<open>The items of the display \<^verbatim>\<open>PARENT_ORG_MAPPING = {...}\<close>, in the order of the source.\<close>

definition PARENT_ORG_MAPPING_items :: "(string \<times> string) list" where
  "PARENT_ORG_MAPPING_items =
    [
     (''H0028'', ''UnitedHealth Group''), (''H0543'', ''UnitedHealth Group''), (''H0754'', ''UnitedHealth Group''),
     (''H1045'', ''UnitedHealth Group''), (''H1685'', ''UnitedHealth Group''), (''H2001'', ''UnitedHealth Group''),
     (''H2168'', ''UnitedHealth Group''), (''H2406'', ''UnitedHealth Group''), (''H3749'', ''UnitedHealth Group''),
     (''H4091'', ''UnitedHealth Group''), (''H5253'', ''UnitedHealth Group''), (''H5521'', ''UnitedHealth Group''),
     (''H6501'', ''UnitedHealth Group''), (''H7657'', ''UnitedHealth Group''), (''R5826'', ''UnitedHealth Group''),
     (''H0112'', ''CVS Health (Aetna)''), (''H0318'', ''CVS Health (Aetna)''), (''H0485'', ''CVS Health (Aetna)''),
     (''H0533'', ''CVS Health (Aetna)''), (''H1609'', ''CVS Health (Aetna)''), (''H2478'', ''CVS Health (Aetna)''),
     (''H3152'', ''CVS Health (Aetna)''), (''H3312'', ''CVS Health (Aetna)''), (''H3597'', ''CVS Health (Aetna)''),
     (''H4002'', ''CVS Health (Aetna)''), (''H4448'', ''CVS Health (Aetna)''), (''H5521'', ''CVS Health (Aetna)''),
     (''H9851'', ''CVS Health (Aetna)''), (''H0028'', ''Humana''), (''H1036'', ''Humana''),
     (''H1406'', ''Humana''), (''H1951'', ''Humana''), (''H2649'', ''Humana''),
     (''H4141'', ''Humana''), (''H4461'', ''Humana''), (''H5216'', ''Humana''),
     (''H5619'', ''Humana''), (''H6622'', ''Humana''), (''H7495'', ''Humana''),
     (''H8145'', ''Humana''), (''R5826'', ''Humana''), (''H0146'', ''Elevance Health (Anthem)''),
     (''H0354'', ''Elevance Health (Anthem)''), (''H0540'', ''Elevance Health (Anthem)''), (''H2006'', ''Elevance Health (Anthem)''),
     (''H3655'', ''Elevance Health (Anthem)''), (''H3905'', ''Elevance Health (Anthem)''), (''H4624'', ''Elevance Health (Anthem)''),
     (''H5853'', ''Elevance Health (Anthem)''), (''H9019'', ''Elevance Health (Anthem)''), (''H0169'', ''Centene''),
     (''H1485'', ''Centene''), (''H2712'', ''Centene''), (''H3447'', ''Centene''),
     (''H4007'', ''Centene''), (''H5427'', ''Centene''), (''H6832'', ''Centene''),
     (''H0524'', ''Kaiser Permanente''), (''H0630'', ''Kaiser Permanente''), (''H2172'', ''Kaiser Permanente''),
     (''H9003'', ''Kaiser Permanente''), (''H0107'', ''Cigna''), (''H0354'', ''Cigna''),
     (''H4513'', ''Cigna''), (''H5410'', ''Cigna''), (''H6373'', ''Cigna''),
     (''H0169'', ''Molina Healthcare''), (''H0420'', ''Molina Healthcare''), (''H5823'', ''Molina Healthcare''),
     (''H9498'', ''Molina Healthcare''), (''H0404'', ''BCBS''), (''H0520'', ''BCBS''),
     (''H1350'', ''BCBS''), (''H2819'', ''BCBS''), (''H3949'', ''BCBS''),
     (''H5008'', ''BCBS''), (''H6502'', ''BCBS'')
    ]"

definition PARENT_ORG_MAPPING :: "(string \<times> string) list" where
  "PARENT_ORG_MAPPING = dict_of_items PARENT_ORG_MAPPING_items"

section \<open>The classifier\<close>

definition dsnp_keywords :: "string list" where
  "dsnp_keywords = [''dsnp'', ''dual'', ''d-snp'', ''dual eligible'', ''dual-eligible'']"

text \<open>
  \<^verbatim>\<open>identify_plan_type(contract_id, plan_name, org_type)\<close>. On \<^verbatim>\<open>nan\<close> the test
  \<^verbatim>\<open>not contract_id\<close> is false and \<^verbatim>\<open>contract_id[0]\<close> raises \<^verbatim>\<open>TypeError\<close>.
\<close>

definition identify_plan_type :: "pyval \<Rightarrow> pyval \<Rightarrow> pyval \<Rightarrow> error + string" where
  "identify_plan_type contract_id plan_name org_type =
     (if \<not> truthy contract_id then Inr ''Other''
      else case contract_id of
        PyStr (c # cs) \<Rightarrow>
          (let prefix = upper_char c
           in case or_empty_lower plan_name of
                Inl e \<Rightarrow> Inl e
              | Inr plan_name_lower \<Rightarrow>
                  (case or_empty_lower org_type of
                     Inl e \<Rightarrow> Inl e
                   | Inr org_type_lower \<Rightarrow>
                       if list_ex (\<lambda>kw. contains plan_name_lower kw \<or> contains org_type_lower kw)
                            dsnp_keywords
                       then Inr ''DSNP''
                       else if prefix = [72]
                       then (if contains plan_name_lower ''ppo'' then Inr ''PPO'' else Inr ''HMO'')
                       else if prefix = [82] then Inr ''PPO''
                       else Inr ''Other''))
      | _ \<Rightarrow> Inl TypeError)"

section \<open>Parent organization\<close>

text \<open>The dict \<^verbatim>\<open>org_keywords\<close> of \<^verbatim>\<open>get_parent_org\<close>, in its insertion order.\<close>

definition org_keywords :: "(string \<times> string list) list" where
  "org_keywords =
    [(''UnitedHealth Group'', [''united'', ''uhc'', ''optum'', ''pacificare'']),
     (''CVS Health (Aetna)'', [''aetna'', ''cvs'']),
     (''Humana'', [''humana'']),
     (''Elevance Health (Anthem)'', [''anthem'', ''wellpoint'', ''elevance'']),
     (''Centene'', [''centene'', ''wellcare'', ''health net'']),
     (''Kaiser Permanente'', [''kaiser'']),
     (''Cigna'', [''cigna'']),
     (''Molina Healthcare'', [''molina'']),
     (''BCBS'', [''blue cross'', ''blue shield'', ''bcbs'', ''anthem''])]"

text \<open>The loop over \<^verbatim>\<open>org_keywords.items()\<close>: the first parent one of whose keywords occurs.\<close>

definition infer_from_name :: "string \<Rightarrow> string" where
  "infer_from_name org_name_lower =
     (case find (\<lambda>(parent, keywords). list_ex (contains org_name_lower) keywords) org_keywords of
        Some (parent, keywords) \<Rightarrow> parent
      | None \<Rightarrow> ''Other'')"

text \<open>
  \<^verbatim>\<open>get_parent_org(contract_id, org_name)\<close>. \<^verbatim>\<open>contract_id[:5] if len(contract_id) >= 5
  else contract_id\<close>; on \<^verbatim>\<open>nan\<close>, \<^verbatim>\<open>len\<close> raises \<^verbatim>\<open>TypeError\<close>.
\<close>

definition get_parent_org :: "pyval \<Rightarrow> pyval \<Rightarrow> error + string" where
  "get_parent_org contract_id org_name =
     (if \<not> truthy contract_id then Inr ''Other''
      else case contract_id of
        PyStr s \<Rightarrow>
          (let contract_base = (if length s \<ge> 5 then take 5 s else s)
           in case map_of PARENT_ORG_MAPPING contract_base of
                Some org \<Rightarrow> Inr org
              | None \<Rightarrow>
                  (case or_empty_lower org_name of
                     Inl e \<Rightarrow> Inl e
                   | Inr org_name_lower \<Rightarrow> Inr (infer_from_name org_name_lower)))
      | _ \<Rightarrow> Inl TypeError)"

text \<open>
  The closure \<^verbatim>\<open>get_org\<close> of \<^verbatim>\<open>process_csv\<close>, applied to the contract column when the table
  has no organization column. \<open>contract_to_org\<close> is the dict returned by
  \<^verbatim>\<open>load_contract_info\<close> (empty when there is no contract-info file).
\<close>

definition get_org :: "(string \<rightharpoonup> string) \<Rightarrow> pyval \<Rightarrow> error + string" where
  "get_org contract_to_org contract =
     (if isna contract then Inr ''Other''
      else case contract of
        PyStr s \<Rightarrow>
          (case contract_to_org s of
             Some org \<Rightarrow> Inr org
           | None \<Rightarrow> get_parent_org contract (PyStr []))
      | _ \<Rightarrow> Inr ''Other'')"

section \<open>Schema normalization\<close>

text \<open>
  \<^verbatim>\<open>str.strip()\<close> removes the characters for which \<^verbatim>\<open>str.isspace()\<close> holds; among the
  code points 0 to 255 these are 9 to 13, 28 to 32, 133 and 160.
\<close>

definition is_space :: "char \<Rightarrow> bool" where
  "is_space c =
     (let n = (of_char c :: nat)
      in (9 \<le> n \<and> n \<le> 13) \<or> (28 \<le> n \<and> n \<le> 32) \<or> n = 133 \<or> n = 160)"

definition strip :: "string \<Rightarrow> string" where
  "strip s = rev (dropWhile is_space (rev (dropWhile is_space s)))"

text \<open>\<^verbatim>\<open>s.replace(a, b)\<close> for one-character \<open>a\<close> and \<open>b\<close>.\<close>

definition replace_char :: "char \<Rightarrow> char \<Rightarrow> string \<Rightarrow> string" where
  "replace_char a b s = map (\<lambda>x. if x = a then b else x) s"

text \<open>\<^verbatim>\<open>df.columns.str.strip().str.lower().str.replace(' ', '_')\<close>, for one column name.\<close>

definition standardize_column :: "string \<Rightarrow> string" where
  "standardize_column name = replace_char (CHR '' '') (CHR ''_'') (lower (strip name))"

definition column_mappings :: "(string \<times> string list) list" where
  "column_mappings =
    [(''contract_number'', [''contract_number'', ''contractid'', ''contract_id'', ''h_number'']),
     (''plan_id'', [''plan_id'', ''planid'', ''plan_number'']),
     (''state'', [''state'', ''state_code'', ''bene_state'']),
     (''county'', [''county'', ''county_name'', ''bene_county'']),
     (''fips'', [''fips'', ''fips_code'', ''county_fips'', ''ssa_code'', ''fips_state_county_code'']),
     (''enrollment'',
        [''enrollment'', ''total_enrollment'', ''enrolled'', ''member_count'', ''enrollees'']),
     (''organization'',
        [''organization_name'', ''org_name'', ''organization'', ''plan_org_name'',
         ''parent_organization'']),
     (''plan_name'', [''plan_name'', ''plan_benefit_package_name'', ''pbp_name'']),
     (''org_type'', [''organization_type'', ''org_type'', ''special_needs_plan_type''])]"

text \<open>
  The loop that fills the dict \<^verbatim>\<open>renamed\<close>: for each canonical name, the first of its
  variations that is a column of the table (the inner loop stops at \<^verbatim>\<open>break\<close>).
\<close>

definition renamed :: "string list \<Rightarrow> (string \<times> string) list" where
  "renamed cols =
     dict_of_items
       (List.map_filter
          (\<lambda>(standard_name, variations).
             case find (\<lambda>var. var \<in> set cols) variations of
               Some var \<Rightarrow> Some (var, standard_name)
             | None \<Rightarrow> None)
          column_mappings)"

text \<open>\<^verbatim>\<open>df.rename(columns=renamed)\<close> on the column names.\<close>

definition rename_columns :: "(string \<times> string) list \<Rightarrow> string list \<Rightarrow> string list" where
  "rename_columns ren cols = map (\<lambda>c. case map_of ren c of Some n \<Rightarrow> n | None \<Rightarrow> c) cols"

definition required :: "string list" where
  "required = [''contract_number'', ''state'', ''enrollment'']"

text \<open>What \<^verbatim>\<open>process_csv\<close> prints on its way to the schema error.\<close>

datatype printed = Available_columns "string list"

text \<open>
  The column stage of \<^verbatim>\<open>process_csv\<close>, from the header of the table as read to the check
  of the required columns: the lines printed, and either the error raised or the
  normalized column names.
\<close>

definition normalize_columns :: "string list \<Rightarrow> printed list \<times> (error + string list)" where
  "normalize_columns header =
     (let cols0 = map standardize_column header;
          cols = rename_columns (renamed cols0) cols0;
          missing = filter (\<lambda>col. col \<notin> set cols) required
      in if missing \<noteq> []
         then ([Available_columns cols], Inl (ValueError_missing_columns missing))
         else ([], Inr cols))"

section \<open>Enrollment coercion\<close>










section \<open>Tables\<close>

text \<open>
  A \<^verbatim>\<open>DataFrame\<close> as \<^verbatim>\<open>aggregate_enrollment\<close> receives it: the columns present and the
  rows in their order. Each row gives a cell for every text column (the cell of a column
  that is not present is never read) and its enrollment, which after \<^verbatim>\<open>.astype(int)\<close> is a
  64-bit signed integer.
\<close>

datatype column =
    Contract_number | State | County | Fips | Organization | Plan_name | Org_type
  | Plan_type | Parent_org

record row =
  cell :: "column \<Rightarrow> pyval"
  enrollment :: "64 word"

record frame =
  columns :: "column list"
  rows :: "row list"

text \<open>\<^verbatim>\<open>r.get(col, '')\<close> on a row of \<open>df\<close>.\<close>

definition row_get :: "frame \<Rightarrow> row \<Rightarrow> column \<Rightarrow> pyval" where
  "row_get df r c = (if c \<in> set (columns df) then cell r c else PyStr [])"

text \<open>\<^verbatim>\<open>df[col] = values\<close>: the column is replaced, or added as the last one.\<close>

definition set_column :: "column \<Rightarrow> pyval list \<Rightarrow> frame \<Rightarrow> frame" where
  "set_column c vs df =
     \<lparr>columns = (if c \<in> set (columns df) then columns df else columns df @ [c]),
      rows = map (\<lambda>(r, v). r\<lparr>cell := (cell r)(c := v)\<rparr>) (zip (rows df) vs)\<rparr>"

text \<open>\<^verbatim>\<open>df.apply(f, axis=1)\<close> calls \<open>f\<close> row by row; the first exception ends it.\<close>

fun sequence :: "(error + 'a) list \<Rightarrow> error + 'a list" where
  "sequence [] = Inr []"
| "sequence (Inl e # xs) = Inl e"
| "sequence (Inr v # xs) = (case sequence xs of Inl e \<Rightarrow> Inl e | Inr vs \<Rightarrow> Inr (v # vs))"

text \<open>The strings of a column, in order, without the missing cells (\<^verbatim>\<open>dropna\<close>).\<close>

definition strs :: "pyval list \<Rightarrow> string list" where
  "strs vs = List.map_filter (\<lambda>v. case v of PyStr s \<Rightarrow> Some s | _ \<Rightarrow> None) vs"

text \<open>
  \<^verbatim>\<open>groupby(col)\<close> with its defaults \<^verbatim>\<open>sort=True\<close> and \<^verbatim>\<open>dropna=True\<close>: the groups are the
  distinct values of the key column in ascending order, rows with a missing key belong
  to no group, and each group keeps its rows in the order of the table.
\<close>

definition group_keys :: "column \<Rightarrow> row list \<Rightarrow> string list" where
  "group_keys c rs = sort (remdups (strs (map (\<lambda>r. cell r c) rs)))"

definition group_rows :: "column \<Rightarrow> string \<Rightarrow> row list \<Rightarrow> row list" where
  "group_rows c k rs = filter (\<lambda>r. cell r c = PyStr k) rs"

text \<open>\<^verbatim>\<open>int(x['enrollment'].sum())\<close>: the sum wraps around in 64 bits.\<close>

definition enrollment_sum :: "row list \<Rightarrow> int" where
  "enrollment_sum rs = sint (sum_list (map enrollment rs))"

text \<open>\<^verbatim>\<open>{k: int(v) for k, v in x.groupby(col)['enrollment'].sum().to_dict().items()}\<close>\<close>

definition groupby_sum :: "column \<Rightarrow> row list \<Rightarrow> (string \<times> int) list" where
  "groupby_sum c rs = map (\<lambda>k. (k, enrollment_sum (group_rows c k rs))) (group_keys c rs)"

section \<open>Aggregation\<close>

record county_data =
  cd_state :: string
  cd_county :: string
  cd_fips :: string
  cd_total :: int
  cd_by_org :: "(string \<times> int) list"
  cd_by_plan_type :: "(string \<times> int) list"
  cd_contracts :: "(string \<times> int) list"

record contract_data =
  ci_enrollment :: int
  ci_parent_org :: pyval
  ci_organization :: pyval
  ci_plan_type :: string

text \<open>The metadata without \<^verbatim>\<open>processed_date\<close>, which is the time of the run.\<close>

record metadata =
  record_count :: nat
  total_enrollment :: int

record snapshot =
  metadata :: metadata
  counties :: "(string \<times> county_data) list"
  by_org :: "(string \<times> int) list"
  by_plan_type :: "(string \<times> int) list"
  by_state :: "(string \<times> int) list"
  contracts :: "(string \<times> contract_data) list"

text \<open>
  The keys that \<^verbatim>\<open>df.groupby(['state', 'county'])\<close> iterates over: the distinct pairs of
  present values, in ascending order of the pair.
\<close>

definition county_group_keys :: "row list \<Rightarrow> (string \<times> string) list" where
  "county_group_keys rs =
     sort (remdups (List.map_filter
       (\<lambda>r. case (cell r State, cell r County) of
               (PyStr s, PyStr c) \<Rightarrow> Some (s, c)
             | _ \<Rightarrow> None) rs))"

definition county_group_rows :: "string \<times> string \<Rightarrow> row list \<Rightarrow> row list" where
  "county_group_rows k rs =
     filter (\<lambda>r. cell r State = PyStr (fst k) \<and> cell r County = PyStr (snd k)) rs"

text \<open>\<^verbatim>\<open>f"{state}_{county}".replace(' ', '_').lower()\<close>\<close>

definition county_slug :: "string \<Rightarrow> string \<Rightarrow> string" where
  "county_slug s c = lower (replace_char (CHR '' '') (CHR ''_'') (s @ ''_'' @ c))"

text \<open>\<^verbatim>\<open>Series.unique()\<close>: the values in the order of their first appearance.\<close>

definition unique :: "'a list \<Rightarrow> 'a list" where
  "unique xs = foldl (\<lambda>acc x. if x \<in> set acc then acc else acc @ [x]) [] xs"

text \<open>
  \<^verbatim>\<open>fips_values = group['fips'].dropna().unique()\<close> and
  \<^verbatim>\<open>fips_values[0] if len(fips_values) > 0 and fips_values[0] else county_key\<close>
\<close>

definition choose_fips :: "row list \<Rightarrow> string \<Rightarrow> string" where
  "choose_fips grp county_key =
     (case unique (strs (map (\<lambda>r. cell r Fips) grp)) of
        [] \<Rightarrow> county_key
      | v # vs \<Rightarrow> if v \<noteq> [] then v else county_key)"

text \<open>The body of the loop over the county groups: the key and the entry stored under it.\<close>

definition county_entry :: "string \<Rightarrow> string \<Rightarrow> string \<Rightarrow> row list \<Rightarrow> string \<times> county_data" where
  "county_entry st cty county_key grp =
     (let fips = choose_fips grp county_key
      in (fips,
          \<lparr>cd_state = st, cd_county = cty, cd_fips = fips,
           cd_total = enrollment_sum grp,
           cd_by_org = groupby_sum Parent_org grp,
           cd_by_plan_type = groupby_sum Plan_type grp,
           cd_contracts = groupby_sum Contract_number grp\<rparr>))"

text \<open>
  The key that the loop \<^verbatim>\<open>for keys, group in county_group\<close> is handed: a tuple of the
  values of the grouping columns, or the bare value.
\<close>

datatype group_key = Bare string | Tuple "string list"

text \<open>
  \<^verbatim>\<open>df.groupby(['state', 'county'] if 'county' in df.columns else ['state'])\<close>: the keys
  with their groups, in the order of the loop. The keys of two columns are pairs; the keys
  of the one column are what the release makes them.
\<close>

definition county_group :: "pandas \<Rightarrow> frame \<Rightarrow> (group_key \<times> row list) list" where
  "county_group lib df =
     (if County \<in> set (columns df)
      then map (\<lambda>k. (Tuple [fst k, snd k], county_group_rows k (rows df)))
               (county_group_keys (rows df))
      else map (\<lambda>s. (if tuple_keys lib then Tuple [s] else Bare s,
                       group_rows State s (rows df)))
               (group_keys State (rows df)))"

text \<open>
  The body of the loop, up to the entry it stores: \<^verbatim>\<open>if isinstance(keys, tuple):
  state, county = keys\<close>, which raises \<^verbatim>\<open>ValueError\<close> unless the tuple has two values, and
  the branch of the bare key.
\<close>

definition county_step :: "group_key \<Rightarrow> row list \<Rightarrow> error + (string \<times> county_data)" where
  "county_step keys grp =
     (case keys of
        Tuple ks \<Rightarrow>
          (case ks of
             [st, cty] \<Rightarrow> Inr (county_entry st cty (county_slug st cty) grp)
           | _ \<Rightarrow> Inl ValueError_unpack)
      | Bare st \<Rightarrow> Inr (county_entry st ''Unknown'' (st @ ''_unknown'') grp))"

text \<open>The entries in the order of the loop; the first step that raises ends it.\<close>

definition county_entries :: "pandas \<Rightarrow> frame \<Rightarrow> error + (string \<times> county_data) list" where
  "county_entries lib df = sequence (map (\<lambda>kg. county_step (fst kg) (snd kg)) (county_group lib df))"

text \<open>
  The aggregation \<^verbatim>\<open>'first'\<close>: the first value of the group that is not missing, and
  for a group of missing values the missing value of the release.
\<close>

definition first_valid :: "pandas \<Rightarrow> pyval list \<Rightarrow> pyval" where
  "first_valid lib vs =
     (case filter (\<lambda>v. \<not> isna v) vs of
        [] \<Rightarrow> if first_none lib then PyNone else PyNaN
      | v # _ \<Rightarrow> v)"

text \<open>
  \<^verbatim>\<open>Series.mode()\<close>: the values that occur most often, each once, sorted in ascending
  order.
\<close>

definition mode :: "string list \<Rightarrow> string list" where
  "mode xs =
     sort (remdups (filter (\<lambda>v. list_all (\<lambda>w. count_list xs w \<le> count_list xs v) xs) xs))"

text \<open>\<^verbatim>\<open>lambda x: x.mode().iloc[0] if len(x.mode()) > 0 else 'Unknown'\<close>\<close>

definition mode_first :: "string list \<Rightarrow> string" where
  "mode_first xs = (case mode xs of [] \<Rightarrow> ''Unknown'' | m # _ \<Rightarrow> m)"

definition contract_entry :: "pandas \<Rightarrow> frame \<Rightarrow> string \<Rightarrow> string \<times> contract_data" where
  "contract_entry lib df k =
     (let grp = group_rows Contract_number k (rows df);
          parent = first_valid lib (map (\<lambda>r. cell r Parent_org) grp)
      in (k,
          \<lparr>ci_enrollment = enrollment_sum grp,
           ci_parent_org = parent,
           ci_organization =
             (if Organization \<in> set (columns df)
              then first_valid lib (map (\<lambda>r. cell r Organization) grp) else parent),
           ci_plan_type = mode_first (strs (map (\<lambda>r. cell r Plan_type) grp))\<rparr>))"

text \<open>
  The three derived columns that \<^verbatim>\<open>aggregate_enrollment\<close> adds before it aggregates. On a
  table without rows \<^verbatim>\<open>df.apply(..., axis=1)\<close> returns a table, not a column, and storing
  it as the one column \<^verbatim>\<open>plan_type\<close> raises \<^verbatim>\<open>ValueError\<close>.
\<close>

definition add_plan_type :: "frame \<Rightarrow> error + frame" where
  "add_plan_type df =
     (if rows df = [] then Inl ValueError_set_column
      else case sequence (map (\<lambda>r. identify_plan_type (row_get df r Contract_number)
                                 (row_get df r Plan_name) (row_get df r Org_type)) (rows df)) of
        Inl e \<Rightarrow> Inl e
      | Inr pts \<Rightarrow> Inr (set_column Plan_type (map PyStr pts) df))"

definition add_parent_org :: "frame \<Rightarrow> error + frame" where
  "add_parent_org df =
     (if Organization \<in> set (columns df)
      then Inr (set_column Parent_org (map (\<lambda>r. cell r Organization) (rows df)) df)
      else case sequence (map (\<lambda>r. get_parent_org (row_get df r Contract_number) (PyStr []))
                            (rows df)) of
             Inl e \<Rightarrow> Inl e
           | Inr orgs \<Rightarrow> Inr (set_column Parent_org (map PyStr orgs) df))"

definition add_fips :: "frame \<Rightarrow> frame" where
  "add_fips df =
     (if Fips \<notin> set (columns df)
      then set_column Fips (replicate (length (rows df)) (PyStr [])) df else df)"

text \<open>The aggregation proper, on the table with its derived columns.\<close>

definition aggregate :: "pandas \<Rightarrow> frame \<Rightarrow> error + snapshot" where
  "aggregate lib df =
     (case county_entries lib df of
        Inl e \<Rightarrow> Inl e
      | Inr entries \<Rightarrow>
          Inr \<lparr>metadata =
                 \<lparr>record_count = length (rows df), total_enrollment = enrollment_sum (rows df)\<rparr>,
               counties = dict_of_items entries,
               by_org = groupby_sum Parent_org (rows df),
               by_plan_type = groupby_sum Plan_type (rows df),
               by_state = groupby_sum State (rows df),
               contracts = map (contract_entry lib df) (group_keys Contract_number (rows df))\<rparr>)"

definition add_derived_columns :: "frame \<Rightarrow> error + frame" where
  "add_derived_columns df =
     (case add_plan_type df of
        Inl e \<Rightarrow> Inl e
      | Inr df1 \<Rightarrow>
          (case add_parent_org df1 of
             Inl e \<Rightarrow> Inl e
           | Inr df2 \<Rightarrow> Inr (add_fips df2)))"

definition aggregate_enrollment :: "pandas \<Rightarrow> frame \<Rightarrow> error + snapshot" where
  "aggregate_enrollment lib df =
     (case add_derived_columns df of
        Inl e \<Rightarrow> Inl e
      | Inr df' \<Rightarrow> aggregate lib df')"

section \<open>The delta engine\<close>

text \<open>
  \<^verbatim>\<open>change_pct\<close> is a Python float. Its value is kept as the expression that computes it,
  \<^verbatim>\<open>round(change / dec_total * 100, 2)\<close>; no rounding of floating-point arithmetic is
  modelled. The integer \<^verbatim>\<open>0\<close> of the other branch is a Python \<^verbatim>\<open>int\<close>.
\<close>

datatype pyfloat = True_div int int | Times_100 pyfloat | Round_2 pyfloat

datatype pynum = PyInt int | PyFloat pyfloat

text \<open>
  \<^verbatim>\<open>a / b\<close> on Python integers raises \<^verbatim>\<open>ZeroDivisionError\<close> for \<open>b = 0\<close>, and
  \<^verbatim>\<open>OverflowError\<close> when the correctly rounded quotient is no double, that is from
  \<open>2 ^ 1024 - 2 ^ 970\<close> on in magnitude.
\<close>

definition true_div :: "int \<Rightarrow> int \<Rightarrow> error + pyfloat" where
  "true_div a b =
     (if b = 0 then Inl ZeroDivisionError
      else if (2 ^ 1024 - 2 ^ 970) * \<bar>b\<bar> \<le> \<bar>a\<bar> then Inl OverflowError
      else Inr (True_div a b))"

text \<open>\<^verbatim>\<open>round((change / dec_total * 100), 2) if dec_total > 0 else 0\<close>\<close>

definition change_pct :: "int \<Rightarrow> int \<Rightarrow> error + pynum" where
  "change_pct change dec_total =
     (if dec_total > 0
      then (case true_div change dec_total of
              Inl e \<Rightarrow> Inl e
            | Inr q \<Rightarrow> Inr (PyFloat (Round_2 (Times_100 q))))
      else Inr (PyInt 0))"

record change =
  ch_current :: int
  ch_december :: int
  ch_change :: int
  ch_change_pct :: pynum

record summary =
  total_current :: int
  total_december :: int
  total_change :: int
  total_change_pct :: pynum

record changes =
  changes_counties :: "(string \<times> change) list"
  changes_by_org :: "(string \<times> change) list"
  changes_by_state :: "(string \<times> change) list"
  changes_summary :: summary

text \<open>The body shared by the three loops: one entry from the two totals.\<close>

definition change_of :: "int \<Rightarrow> int \<Rightarrow> error + change" where
  "change_of curr_total dec_total =
     (let chg = curr_total - dec_total
      in case change_pct chg dec_total of
           Inl e \<Rightarrow> Inl e
         | Inr pct \<Rightarrow>
             Inr \<lparr>ch_current = curr_total, ch_december = dec_total, ch_change = chg,
                  ch_change_pct = pct\<rparr>)"

text \<open>\<^verbatim>\<open>d.get(k, 0)\<close>\<close>

definition get_or_0 :: "(string \<times> int) list \<Rightarrow> string \<Rightarrow> int" where
  "get_or_0 d k = (case map_of d k of Some v \<Rightarrow> v | None \<Rightarrow> 0)"

text \<open>
  \<^verbatim>\<open>december['counties'].get(fips, {'total': 0}).get('total', 0)\<close>; an entry of a snapshot
  always has its \<^verbatim>\<open>total\<close>.
\<close>

definition county_total_or_0 :: "(string \<times> county_data) list \<Rightarrow> string \<Rightarrow> int" where
  "county_total_or_0 d k = (case map_of d k of Some c \<Rightarrow> cd_total c | None \<Rightarrow> 0)"

text \<open>
  One loop \<^verbatim>\<open>for k, curr_total in current[dim].items(): changes[dim][k] = {...}\<close>, given
  the current totals in the order of the dict and the lookup of the baseline.
\<close>

definition dimension_changes ::
  "(string \<times> int) list \<Rightarrow> (string \<Rightarrow> int) \<Rightarrow> error + (string \<times> change) list" where
  "dimension_changes cur baseline =
     (case sequence (map (\<lambda>(k, curr_total).
                            case change_of curr_total (baseline k) of
                              Inl e \<Rightarrow> Inl e
                            | Inr c \<Rightarrow> Inr (k, c)) cur) of
        Inl e \<Rightarrow> Inl e
      | Inr kcs \<Rightarrow> Inr (dict_of_items kcs))"

definition calculate_changes :: "snapshot \<Rightarrow> snapshot \<Rightarrow> error + changes" where
  "calculate_changes current december =
     (let tc = total_enrollment (metadata current);
          td = total_enrollment (metadata december)
      in case change_pct (tc - td) td of
           Inl e \<Rightarrow> Inl e
         | Inr tpct \<Rightarrow>
         (case dimension_changes (map (\<lambda>(k, c). (k, cd_total c)) (counties current))
                 (county_total_or_0 (counties december)) of
            Inl e \<Rightarrow> Inl e
          | Inr cc \<Rightarrow>
          (case dimension_changes (by_org current) (get_or_0 (by_org december)) of
             Inl e \<Rightarrow> Inl e
           | Inr oc \<Rightarrow>
           (case dimension_changes (by_state current) (get_or_0 (by_state december)) of
              Inl e \<Rightarrow> Inl e
            | Inr sc \<Rightarrow>
                Inr \<lparr>changes_counties = cc, changes_by_org = oc, changes_by_state = sc,
                     changes_summary =
                       \<lparr>total_current = tc, total_december = td, total_change = tc - td,
                        total_change_pct = tpct\<rparr>\<rparr>))))"

section \<open>Reference definitions\<close>

text \<open>
  The definitions of this section are not translations of the source: they say in the
  words of the specification what the source is compared with.
\<close>

text \<open>The value of the last, and of the first, item of a dict display with a given key.\<close>

definition last_defined :: "('k \<times> 'v) list \<Rightarrow> 'k \<Rightarrow> 'v option" where
  "last_defined kvs k =
     (case filter (\<lambda>kv. fst kv = k) kvs of [] \<Rightarrow> None | x # xs \<Rightarrow> Some (snd (last (x # xs))))"

definition first_defined :: "('k \<times> 'v) list \<Rightarrow> 'k \<Rightarrow> 'v option" where
  "first_defined kvs k =
     (case filter (\<lambda>kv. fst kv = k) kvs of [] \<Rightarrow> None | x # xs \<Rightarrow> Some (snd x))"

definition defined_more_than_once :: "('k \<times> 'v) list \<Rightarrow> 'k list" where
  "defined_more_than_once kvs =
     unique (filter (\<lambda>k. 1 < count_list (map fst kvs) k) (map fst kvs))"

text \<open>A text mentions a keyword, whatever the case of its letters; a missing text mentions none.\<close>

definition mentions :: "pyval \<Rightarrow> string \<Rightarrow> bool" where
  "mentions v kw = (case v of PyStr s \<Rightarrow> contains (lower s) kw | _ \<Rightarrow> False)"

text \<open>
  The classifier as the specification words it, with the dual-eligible keywords that the
  plan name or the organization type is searched for.
\<close>

definition dual_eligible_keywords :: "string list" where
  "dual_eligible_keywords = [''dsnp'', ''dual'', ''d-snp'', ''dual eligible'', ''dual-eligible'']"

definition classify :: "pyval \<Rightarrow> pyval \<Rightarrow> pyval \<Rightarrow> string" where
  "classify contract_number plan_name org_type =
     (case contract_number of
        PyStr (c # cs) \<Rightarrow>
          if list_ex (\<lambda>kw. mentions plan_name kw \<or> mentions org_type kw) dual_eligible_keywords
          then ''DSNP''
          else if c = CHR ''H'' \<or> c = CHR ''h''
          then (if mentions plan_name ''ppo'' then ''PPO'' else ''HMO'')
          else if c = CHR ''R'' \<or> c = CHR ''r'' then ''PPO''
          else ''Other''
      | _ \<Rightarrow> ''Other'')"

text \<open>The first parent organization, in the fixed order, one of whose keywords the name mentions.\<close>

definition keyword_match :: "string \<Rightarrow> string option" where
  "keyword_match org_name =
     map_option fst
       (find (\<lambda>(parent, keywords). list_ex (\<lambda>kw. contains (lower org_name) kw) keywords)
          org_keywords)"

text \<open>The priority order of the parent organization as the specification words it.\<close>

definition resolve_parent_org :: "(string \<rightharpoonup> string) \<Rightarrow> pyval \<Rightarrow> string \<Rightarrow> string" where
  "resolve_parent_org lookup contract_number org_name =
     (case contract_number of
        PyStr s \<Rightarrow>
          if s = [] then ''Other''
          else (case lookup s of
                  Some org \<Rightarrow> org
                | None \<Rightarrow>
                    (case last_defined PARENT_ORG_MAPPING_items (take 5 s) of
                       Some org \<Rightarrow> org
                     | None \<Rightarrow>
                         (case keyword_match org_name of
                            Some parent \<Rightarrow> parent
                          | None \<Rightarrow> ''Other'')))
      | _ \<Rightarrow> ''Other'')"







text \<open>The synonyms of a canonical field, and the required fields without a matching column.\<close>

definition synonyms :: "string \<Rightarrow> string list" where
  "synonyms field = (case map_of column_mappings field of Some vars \<Rightarrow> vars | None \<Rightarrow> [])"

definition has_match :: "string list \<Rightarrow> string \<Rightarrow> bool" where
  "has_match cols field = list_ex (\<lambda>var. var \<in> set cols) (synonyms field)"

definition missing_fields :: "string list \<Rightarrow> string list" where
  "missing_fields cols = filter (\<lambda>field. \<not> has_match cols field) required"

text \<open>The items stored in \<^const>\<open>renamed\<close>, for any table of synonyms.\<close>

definition first_matches ::
  "string list \<Rightarrow> (string \<times> string list) list \<Rightarrow> (string \<times> string) list" where
  "first_matches cols ms =
     List.map_filter
       (\<lambda>(standard_name, variations).
          case find (\<lambda>var. var \<in> set cols) variations of
            Some var \<Rightarrow> Some (var, standard_name)
          | None \<Rightarrow> None) ms"

text \<open>
  A well-formed snapshot: its dicts have one entry for a key, and its totals are 64-bit
  signed integers, as \<^verbatim>\<open>aggregate_enrollment\<close> produces them.
\<close>

definition int64_range :: "int \<Rightarrow> bool" where
  "int64_range v = (- (2 ^ 63) \<le> v \<and> v < 2 ^ 63)"

definition well_formed :: "snapshot \<Rightarrow> bool" where
  "well_formed s =
     (distinct (map fst (counties s)) \<and> distinct (map fst (by_org s)) \<and>
      distinct (map fst (by_state s)) \<and>
      int64_range (total_enrollment (metadata s)) \<and>
      list_all (\<lambda>kc. int64_range (cd_total (snd kc))) (counties s) \<and>
      list_all (\<lambda>kv. int64_range (snd kv)) (by_org s) \<and>
      list_all (\<lambda>kv. int64_range (snd kv)) (by_state s))"

text \<open>
  The entry of the change set as the specification words it: the change is the current
  value minus the baseline, and the percentage is the rounded quotient for a strictly
  positive baseline and the integer 0 otherwise.
\<close>

definition expected_change :: "int \<Rightarrow> int \<Rightarrow> change" where
  "expected_change cur base =
     \<lparr>ch_current = cur, ch_december = base, ch_change = cur - base,
      ch_change_pct =
        (if 0 < base then PyFloat (Round_2 (Times_100 (True_div (cur - base) base)))
         else PyInt 0)\<rparr>"

definition expected_changes ::
  "(string \<times> int) list \<Rightarrow> (string \<Rightarrow> int) \<Rightarrow> (string \<times> change) list" where
  "expected_changes cur baseline =
     map (\<lambda>kv. (fst kv, expected_change (snd kv) (baseline (fst kv)))) cur"

text \<open>
  The baseline value of a key as the specification words it: the value that the baseline
  has for the key, and 0 for a key absent from the baseline.
\<close>

definition baseline_of :: "(string \<times> int) list \<Rightarrow> string \<Rightarrow> int" where
  "baseline_of d k = (case filter (\<lambda>kv. fst kv = k) d of [] \<Rightarrow> 0 | kv # kvs \<Rightarrow> snd kv)"

definition county_totals :: "snapshot \<Rightarrow> (string \<times> int) list" where
  "county_totals s = map (\<lambda>kc. (fst kc, cd_total (snd kc))) (counties s)"

definition expected_summary :: "int \<Rightarrow> int \<Rightarrow> summary" where
  "expected_summary cur base =
     \<lparr>total_current = cur, total_december = base, total_change = cur - base,
      total_change_pct = ch_change_pct (expected_change cur base)\<rparr>"

text \<open>
  The exact value of a float expression, before any rounding, as a numerator and a
  denominator. A percentage is finite when the denominator is not zero and the exact
  value is below \<open>2 ^ 72\<close> in magnitude, far inside the range of a double.
\<close>

fun ratio :: "pyfloat \<Rightarrow> int \<times> int" where
  "ratio (True_div a b) = (a, b)"
| "ratio (Times_100 f) = (100 * fst (ratio f), snd (ratio f))"
| "ratio (Round_2 f) = ratio f"

fun pct_finite :: "pynum \<Rightarrow> bool" where
  "pct_finite (PyInt n) = True"
| "pct_finite (PyFloat f) =
     (snd (ratio f) \<noteq> 0 \<and> \<bar>fst (ratio f)\<bar> < 2 ^ 72 * \<bar>snd (ratio f)\<bar>)"

text \<open>Two snapshots to run the delta engine on.\<close>

definition one_county :: "int \<Rightarrow> county_data" where
  "one_county n =
     \<lparr>cd_state = ''CA'', cd_county = ''Alameda'', cd_fips = ''06001'', cd_total = n,
      cd_by_org = [], cd_by_plan_type = [], cd_contracts = []\<rparr>"

definition current_example :: snapshot where
  "current_example =
     \<lparr>metadata = \<lparr>record_count = 4, total_enrollment = 235\<rparr>,
      counties = [(''06001'', one_county 175), (''06003'', one_county 60)],
      by_org = [(''X'', 100), (''Y'', 75), (''Z'', 60)],
      by_plan_type = [(''HMO'', 235)],
      by_state = [(''CA'', 235)],
      contracts = []\<rparr>"

definition december_example :: snapshot where
  "december_example =
     \<lparr>metadata = \<lparr>record_count = 3, total_enrollment = 200\<rparr>,
      counties = [(''06001'', one_county 50), (''06005'', one_county 150)],
      by_org = [(''X'', 0), (''Z'', 50), (''W'', 150)],
      by_plan_type = [(''HMO'', 200)],
      by_state = [(''CA'', 200)],
      contracts = []\<rparr>"

text \<open>
  The row of the table with its three derived columns, as a function of the row: the plan
  type, the parent organization and the FIPS code that \<^verbatim>\<open>aggregate_enrollment\<close> adds.
  The frame of these rows is the table that is aggregated when no row raises.
\<close>

definition derived_row :: "frame \<Rightarrow> row \<Rightarrow> row" where
  "derived_row df r =
     r\<lparr>cell := (cell r)
        (Plan_type :=
           (case identify_plan_type (row_get df r Contract_number) (row_get df r Plan_name)
                   (row_get df r Org_type) of
              Inr p \<Rightarrow> PyStr p
            | Inl e \<Rightarrow> PyNaN),
         Parent_org :=
           (if Organization \<in> set (columns df) then cell r Organization
            else case get_parent_org (row_get df r Contract_number) (PyStr []) of
                   Inr p \<Rightarrow> PyStr p
                 | Inl e \<Rightarrow> PyNaN),
         Fips := (if Fips \<in> set (columns df) then cell r Fips else PyStr []))\<rparr>"

definition derived_frame :: "frame \<Rightarrow> frame" where
  "derived_frame df =
     \<lparr>columns = columns df @ [Plan_type, Parent_org, Fips],
      rows = map (derived_row df) (rows df)\<rparr>"

text \<open>
  The entries of the loop over the county groups when none of its steps raises, and the
  snapshot then.
\<close>

definition county_loop :: "frame \<Rightarrow> (string \<times> county_data) list" where
  "county_loop df =
     (if County \<in> set (columns df)
      then map (\<lambda>k. county_entry (fst k) (snd k) (county_slug (fst k) (snd k))
                       (county_group_rows k (rows df)))
               (county_group_keys (rows df))
      else map (\<lambda>s. county_entry s ''Unknown'' (s @ ''_unknown'') (group_rows State s (rows df)))
               (group_keys State (rows df)))"

definition snapshot_of :: "pandas \<Rightarrow> frame \<Rightarrow> snapshot" where
  "snapshot_of lib df =
     \<lparr>metadata = \<lparr>record_count = length (rows df), total_enrollment = enrollment_sum (rows df)\<rparr>,
      counties = dict_of_items (county_loop df),
      by_org = groupby_sum Parent_org (rows df),
      by_plan_type = groupby_sum Plan_type (rows df),
      by_state = groupby_sum State (rows df),
      contracts = map (contract_entry lib df) (group_keys Contract_number (rows df))\<rparr>"

text \<open>The keys that the loop over the county groups stores under, in its order.\<close>

definition county_keys :: "pandas \<Rightarrow> frame \<Rightarrow> string list" where
  "county_keys lib df =
     (case county_entries lib (derived_frame df) of Inr entries \<Rightarrow> map fst entries | Inl e \<Rightarrow> [])"

text \<open>
  The sum of the enrollments as integers, and the tables none of whose sums leaves the
  64 bits of the enrollment column.
\<close>

definition exact_sum :: "row list \<Rightarrow> int" where
  "exact_sum rs = (\<Sum>r\<leftarrow>rs. sint (enrollment r))"

definition no_overflow :: "row list \<Rightarrow> bool" where
  "no_overflow rs = ((\<Sum>r\<leftarrow>rs. \<bar>sint (enrollment r)\<bar>) < 2 ^ 63)"

text \<open>
  Two libraries to run the aggregation on: one hands the loop the bare key of a grouping
  on one column and has \<^verbatim>\<open>nan\<close> as the first value of a group of missing values, the other
  hands the loop a 1-tuple and has \<^verbatim>\<open>None\<close>. The aggregation parses no text.
\<close>

definition bare_keys_lib :: pandas where
  "bare_keys_lib =
     \<lparr>tuple_keys = False, object_dtype = True, to_numeric_other = (\<lambda>s. Not_a_number),
      first_none = False\<rparr>"

definition tuple_keys_lib :: pandas where
  "tuple_keys_lib =
     \<lparr>tuple_keys = True, object_dtype = True, to_numeric_other = (\<lambda>s. Not_a_number),
      first_none = True\<rparr>"

text \<open>Tables to run the aggregation on; a cell that is not listed is missing.\<close>

definition mk_row :: "(column \<times> pyval) list \<Rightarrow> int \<Rightarrow> row" where
  "mk_row cells n =
     \<lparr>cell = (\<lambda>c. case map_of cells c of Some v \<Rightarrow> v | None \<Rightarrow> PyNaN),
      enrollment = word_of_int n\<rparr>"

definition two_county_table :: frame where
  "two_county_table =
     \<lparr>columns = [Contract_number, State, County, Organization],
      rows =
        [mk_row [(Contract_number, PyStr ''H0028''), (State, PyStr ''CA''),
                 (County, PyStr ''Los Angeles''), (Organization, PyStr ''Humana'')] 150,
         mk_row [(Contract_number, PyStr ''H9999''), (State, PyStr ''NY''),
                 (County, PyStr ''Kings''), (Organization, PyStr ''Other'')] 0]\<rparr>"

definition missing_state_table :: frame where
  "missing_state_table =
     \<lparr>columns = [Contract_number, State, County, Organization],
      rows =
        [mk_row [(Contract_number, PyStr ''H0028''), (State, PyStr ''CA''),
                 (County, PyStr ''Los Angeles''), (Organization, PyStr ''Humana'')] 150,
         mk_row [(Contract_number, PyStr ''H9999''), (State, PyNaN),
                 (County, PyStr ''Kings''), (Organization, PyStr ''Other'')] 7]\<rparr>"

definition missing_contract_table :: frame where
  "missing_contract_table =
     \<lparr>columns = [Contract_number, State, County, Organization],
      rows =
        [mk_row [(Contract_number, PyStr ''H0028''), (State, PyStr ''CA''),
                 (County, PyStr ''Los Angeles''), (Organization, PyStr ''Humana'')] 150,
         mk_row [(State, PyStr ''NY''), (County, PyStr ''Kings''),
                 (Organization, PyStr ''Other'')] 7]\<rparr>"

definition missing_plan_name_table :: frame where
  "missing_plan_name_table =
     \<lparr>columns = [Contract_number, State, County, Plan_name, Organization],
      rows =
        [mk_row [(Contract_number, PyStr ''H0028''), (State, PyStr ''CA''),
                 (County, PyStr ''Los Angeles''), (Organization, PyStr ''Humana'')] 150]\<rparr>"

definition no_county_table :: frame where
  "no_county_table =
     \<lparr>columns = [Contract_number, State, Organization],
      rows =
        [mk_row [(Contract_number, PyStr ''H0028''), (State, PyStr ''CA''),
                 (Organization, PyStr ''Humana'')] 150]\<rparr>"

definition fips_collision_table :: frame where
  "fips_collision_table =
     \<lparr>columns = [Contract_number, State, County, Fips, Organization],
      rows =
        [mk_row [(Contract_number, PyStr ''H0028''), (State, PyStr ''CA''),
                 (County, PyStr ''Alameda''), (Fips, PyStr ''06001''),
                 (Organization, PyStr ''Humana'')] 10,
         mk_row [(Contract_number, PyStr ''H0028''), (State, PyStr ''CA''),
                 (County, PyStr ''Alpine''), (Fips, PyStr ''06001''),
                 (Organization, PyStr ''Humana'')] 20]\<rparr>"

definition alpine_entry :: county_data where
  "alpine_entry =
     \<lparr>cd_state = ''CA'', cd_county = ''Alpine'', cd_fips = ''06001'', cd_total = 20,
      cd_by_org = [(''Humana'', 20)], cd_by_plan_type = [(''HMO'', 20)],
      cd_contracts = [(''H0028'', 20)]\<rparr>"

text \<open>
  The slug of state and county as the specification words it: the state, an underscore
  and the county, every space replaced by an underscore and every other character
  lower-cased.
\<close>

definition slug_of :: "string \<Rightarrow> string \<Rightarrow> string" where
  "slug_of st cty =
     map (\<lambda>c. if c = CHR '' '' then CHR ''_'' else py_lower_char c) (st @ CHR ''_'' # cty)"

text \<open>
  The FIPS values of a group of records of the table as read, and the key of the group as
  the specification words it: the first FIPS value of the group that is not empty, and the
  slug when there is none.
\<close>

definition fips_values :: "frame \<Rightarrow> row list \<Rightarrow> string list" where
  "fips_values df grp = (if Fips \<in> set (columns df) then strs (map (\<lambda>r. cell r Fips) grp) else [])"

definition expected_county_key :: "frame \<Rightarrow> row list \<Rightarrow> string \<Rightarrow> string" where
  "expected_county_key df grp slug =
     (case filter (\<lambda>v. v \<noteq> []) (fips_values df grp) of [] \<Rightarrow> slug | v # vs \<Rightarrow> v)"

definition expected_county_keys :: "frame \<Rightarrow> string list" where
  "expected_county_keys df =
     (if County \<in> set (columns df)
      then map (\<lambda>k. expected_county_key df (county_group_rows k (rows df))
                       (slug_of (fst k) (snd k)))
               (county_group_keys (rows df))
      else map (\<lambda>s. expected_county_key df (group_rows State s (rows df)) (s @ ''_unknown''))
               (group_keys State (rows df)))"

definition fips_table :: frame where
  "fips_table =
     \<lparr>columns = [Contract_number, State, County, Fips, Organization],
      rows =
        [mk_row [(Contract_number, PyStr ''H0028''), (State, PyStr ''CA''),
                 (County, PyStr ''Los Angeles''), (Organization, PyStr ''Humana'')] 5,
         mk_row [(Contract_number, PyStr ''H0029''), (State, PyStr ''CA''),
                 (County, PyStr ''Los Angeles''), (Fips, PyStr ''06037''),
                 (Organization, PyStr ''Humana'')] 6,
         mk_row [(Contract_number, PyStr ''H0028''), (State, PyStr ''NY''),
                 (County, PyStr ''New York''), (Organization, PyStr ''Humana'')] 7]\<rparr>"

text \<open>
  A value is most frequent in a list when no value of the list occurs more often. The
  records of a contract in the table with its derived columns, and their plan types in the
  order of the records. The first value that is not missing: what is left when the missing
  values at the front are dropped starts with it, and there is none when nothing is left.
\<close>

definition most_frequent :: "string list \<Rightarrow> string \<Rightarrow> bool" where
  "most_frequent xs v = (v \<in> set xs \<and> list_all (\<lambda>w. count_list xs w \<le> count_list xs v) xs)"

definition contract_rows :: "frame \<Rightarrow> string \<Rightarrow> row list" where
  "contract_rows df k = group_rows Contract_number k (rows (derived_frame df))"

definition contract_plan_types :: "frame \<Rightarrow> string \<Rightarrow> string list" where
  "contract_plan_types df k = strs (map (\<lambda>r. cell r Plan_type) (contract_rows df k))"

definition first_not_missing :: "pyval list \<Rightarrow> pyval option" where
  "first_not_missing vs = (case dropWhile isna vs of [] \<Rightarrow> None | v # vs' \<Rightarrow> Some v)"

definition tie_table :: frame where
  "tie_table =
     \<lparr>columns = [Contract_number, State, County, Plan_name, Organization],
      rows =
        [mk_row [(Contract_number, PyStr ''H1234''), (State, PyStr ''CA''),
                 (County, PyStr ''Kern''), (Plan_name, PyStr ''Gold PPO''),
                 (Organization, PyStr ''Acme'')] 10,
         mk_row [(Contract_number, PyStr ''H1234''), (State, PyStr ''CA''),
                 (County, PyStr ''Kern''), (Plan_name, PyStr ''Gold''),
                 (Organization, PyStr ''Acme'')] 20]\<rparr>"

definition late_organization_table :: frame where
  "late_organization_table =
     \<lparr>columns = [Contract_number, State, County, Plan_name, Organization],
      rows =
        [mk_row [(Contract_number, PyStr ''H1234''), (State, PyStr ''CA''),
                 (County, PyStr ''Kern''), (Plan_name, PyStr ''Gold PPO'')] 10,
         mk_row [(Contract_number, PyStr ''H1234''), (State, PyStr ''CA''),
                 (County, PyStr ''Kern''), (Plan_name, PyStr ''Gold''),
                 (Organization, PyStr ''Acme'')] 20,
         mk_row [(Contract_number, PyStr ''H1234''), (State, PyStr ''CA''),
                 (County, PyStr ''Kern''), (Plan_name, PyStr ''Silver''),
                 (Organization, PyStr ''Zenith'')] 30,
         mk_row [(Contract_number, PyStr ''H5678''), (State, PyStr ''CA''),
                 (County, PyStr ''Kern''), (Plan_name, PyStr ''Basic'')] 40]\<rparr>"

section \<open>Dicts\<close>

lemma map_of_foldl_update:
  "map_of (foldl (\<lambda>d (k, v). AList.update k v d) d kvs) k =
     (case map_of (rev kvs) k of Some v \<Rightarrow> Some v | None \<Rightarrow> map_of d k)"
proof (induction kvs arbitrary: d)
  case Nil
  then show ?case by simp
next
  case (Cons kv kvs)
  obtain a b where kv: "kv = (a, b)" by (cases kv)
  show ?case
    by (simp add: Cons.IH kv update_conv' map_add_def split: option.splits)
qed

lemma map_of_dict_of_items: "map_of (dict_of_items kvs) k = map_of (rev kvs) k"
  by (simp add: dict_of_items_def map_of_foldl_update split: option.splits)

lemma map_of_rev_last_defined: "map_of (rev kvs) k = last_defined kvs k"
proof (induction kvs rule: rev_induct)
  case Nil
  then show ?case by (simp add: last_defined_def)
next
  case (snoc kv kvs)
  then show ?case
    by (cases kv) (auto simp: last_defined_def split: list.splits)
qed

lemma static_lookup: "map_of PARENT_ORG_MAPPING p = last_defined PARENT_ORG_MAPPING_items p"
  by (simp add: PARENT_ORG_MAPPING_def map_of_dict_of_items map_of_rev_last_defined)

section \<open>The static table is last-write-wins\<close>

text \<open>
  Claim C8. A prefix that the display of the static table defines more than once
  (H0028, H5521, R5826, H0354 and H0169, and no other) is looked up to the organization of
  its last definition, not of its first: every lookup in the table gives the value of the
  last item with that key.
\<close>

theorem static_table_last_write_wins:
  "map_of PARENT_ORG_MAPPING p = last_defined PARENT_ORG_MAPPING_items p \<and>
   defined_more_than_once PARENT_ORG_MAPPING_items =
     [''H0028'', ''H5521'', ''R5826'', ''H0354'', ''H0169''] \<and>
   map (map_of PARENT_ORG_MAPPING) [''H0028'', ''H5521'', ''R5826'', ''H0354'', ''H0169''] =
     [Some ''Humana'', Some ''CVS Health (Aetna)'', Some ''Humana'', Some ''Cigna'',
      Some ''Molina Healthcare''] \<and>
   map (first_defined PARENT_ORG_MAPPING_items)
       [''H0028'', ''H5521'', ''R5826'', ''H0354'', ''H0169''] =
     [Some ''UnitedHealth Group'', Some ''UnitedHealth Group'', Some ''UnitedHealth Group'',
      Some ''Elevance Health (Anthem)'', Some ''Centene''] \<and>
   get_parent_org (PyStr ''H0028'') (PyStr ''UnitedHealthcare'') = Inr ''Humana''"
proof -
  have a: "map_of PARENT_ORG_MAPPING p = last_defined PARENT_ORG_MAPPING_items p"
    by (rule static_lookup)
  have b: "defined_more_than_once PARENT_ORG_MAPPING_items =
     [''H0028'', ''H5521'', ''R5826'', ''H0354'', ''H0169'']"
    by code_simp
  have c: "map (map_of PARENT_ORG_MAPPING) [''H0028'', ''H5521'', ''R5826'', ''H0354'', ''H0169''] =
     [Some ''Humana'', Some ''CVS Health (Aetna)'', Some ''Humana'', Some ''Cigna'',
      Some ''Molina Healthcare'']"
    by code_simp
  have d: "map (first_defined PARENT_ORG_MAPPING_items)
       [''H0028'', ''H5521'', ''R5826'', ''H0354'', ''H0169''] =
     [Some ''UnitedHealth Group'', Some ''UnitedHealth Group'', Some ''UnitedHealth Group'',
      Some ''Elevance Health (Anthem)'', Some ''Centene'']"
    by code_simp
  have e: "get_parent_org (PyStr ''H0028'') (PyStr ''UnitedHealthcare'') = Inr ''Humana''"
    by code_simp
  from a b c d e show ?thesis by blast
qed

section \<open>The classifier follows its priority order\<close>

lemma upper_char_H: "upper_char c = [72] \<longleftrightarrow> c = CHR ''H'' \<or> c = CHR ''h''"
proof -
  have a: "(of_char c = (72::nat)) = (c = CHR ''H'')"
    using of_char_eq_iff [of c "CHR ''H''", where ?'a = nat] by simp
  have b: "(of_char c = (104::nat)) = (c = CHR ''h'')"
    using of_char_eq_iff [of c "CHR ''h''", where ?'a = nat] by simp
  have "upper_char c = [72] \<longleftrightarrow> (of_char c :: nat) = 72 \<or> (of_char c :: nat) = 104"
    unfolding upper_char_def Let_def by (auto split: if_splits)
  then show ?thesis using a b by simp
qed

lemma upper_char_R: "upper_char c = [82] \<longleftrightarrow> c = CHR ''R'' \<or> c = CHR ''r''"
proof -
  have a: "(of_char c = (82::nat)) = (c = CHR ''R'')"
    using of_char_eq_iff [of c "CHR ''R''", where ?'a = nat] by simp
  have b: "(of_char c = (114::nat)) = (c = CHR ''r'')"
    using of_char_eq_iff [of c "CHR ''r''", where ?'a = nat] by simp
  have "upper_char c = [82] \<longleftrightarrow> (of_char c :: nat) = 82 \<or> (of_char c :: nat) = 114"
    unfolding upper_char_def Let_def by (auto split: if_splits)
  then show ?thesis using a b by simp
qed

lemma dsnp_keywords_eq: "dsnp_keywords = dual_eligible_keywords"
  by (simp add: dsnp_keywords_def dual_eligible_keywords_def)

lemma dsnp_keywords_nonempty: "kw \<in> set dsnp_keywords \<Longrightarrow> kw \<noteq> []"
  by (auto simp: dsnp_keywords_def)

lemma identify_plan_type_on_strings:
  assumes "contract_number \<noteq> PyNaN"
    and "truthy contract_number \<longrightarrow> plan_name \<noteq> PyNaN \<and> org_type \<noteq> PyNaN"
  shows "identify_plan_type contract_number plan_name org_type =
           Inr (classify contract_number plan_name org_type)"
proof (cases "truthy contract_number")
  case False
  then have "classify contract_number plan_name org_type = ''Other''"
    using assms(1) by (cases contract_number) (simp_all add: classify_def)
  with False show ?thesis by (simp add: identify_plan_type_def)
next
  case True
  then obtain c cs where cn: "contract_number = PyStr (c # cs)"
    using assms(1) by (cases contract_number) (auto simp: neq_Nil_conv)
  from True assms(2) have pn: "plan_name \<noteq> PyNaN" and ot: "org_type \<noteq> PyNaN" by simp_all
  obtain pl where pl: "or_empty_lower plan_name = Inr pl"
    and plm: "\<And>kw. kw \<noteq> [] \<Longrightarrow> contains pl kw = mentions plan_name kw"
    using pn by (cases plan_name) (simp_all add: mentions_def)
  obtain ol where ol: "or_empty_lower org_type = Inr ol"
    and olm: "\<And>kw. kw \<noteq> [] \<Longrightarrow> contains ol kw = mentions org_type kw"
    using ot by (cases org_type) (simp_all add: mentions_def)
  have "list_ex (\<lambda>kw. contains pl kw \<or> contains ol kw) dsnp_keywords =
        list_ex (\<lambda>kw. mentions plan_name kw \<or> mentions org_type kw) dsnp_keywords"
    unfolding list_ex_iff using plm olm dsnp_keywords_nonempty by blast
  then have ex: "list_ex (\<lambda>kw. contains pl kw \<or> contains ol kw) dsnp_keywords =
      list_ex (\<lambda>kw. mentions plan_name kw \<or> mentions org_type kw) dual_eligible_keywords"
    by (simp add: dsnp_keywords_eq)
  have ppo: "contains pl ''ppo'' = mentions plan_name ''ppo''"
    using plm by simp
  show ?thesis
    unfolding identify_plan_type_def classify_def cn
    by (simp add: pl ol ex ppo upper_char_H upper_char_R Let_def)
qed

lemma identify_plan_type_TypeError:
  "identify_plan_type PyNaN plan_name org_type = Inl TypeError"
  by (simp add: identify_plan_type_def)

lemma identify_plan_type_AttributeError:
  assumes "truthy contract_number" and "contract_number \<noteq> PyNaN"
    and "plan_name = PyNaN \<or> org_type = PyNaN"
  shows "identify_plan_type contract_number plan_name org_type = Inl AttributeError"
proof -
  from assms(1,2) obtain c cs where cn: "contract_number = PyStr (c # cs)"
    by (cases contract_number) (auto simp: neq_Nil_conv)
  from assms(3) show ?thesis
    unfolding identify_plan_type_def cn
    by (cases plan_name; cases org_type) (auto simp: Let_def split: sum.splits)
qed

lemma missing_cell_tables:
  "add_derived_columns missing_contract_table = Inl TypeError"
  "add_derived_columns missing_plan_name_table = Inl AttributeError"
proof -
  have "case add_derived_columns missing_contract_table of
          Inl e \<Rightarrow> e = TypeError | Inr df \<Rightarrow> False"
    by code_simp
  then show "add_derived_columns missing_contract_table = Inl TypeError"
    by (simp split: sum.splits)
  have "case add_derived_columns missing_plan_name_table of
          Inl e \<Rightarrow> e = AttributeError | Inr df \<Rightarrow> False"
    by code_simp
  then show "add_derived_columns missing_plan_name_table = Inl AttributeError"
    by (simp split: sum.splits)
qed

text \<open>
  Claim C2. For every contract number, plan name and organization type that is a string
  (or \<^verbatim>\<open>None\<close>), \<^verbatim>\<open>identify_plan_type\<close> returns what the priority order of the
  specification gives: Other at once for an empty or missing contract number, whatever the
  two texts are; else DSNP when the plan name or the organization type mentions a
  dual-eligible keyword; else, for a first character H or h, PPO when the plan name
  mentions ppo and HMO otherwise; else PPO for a first character R or r; else Other.
  For the missing cell of a table, which is \<^verbatim>\<open>nan\<close>, it returns nothing: a missing contract
  number raises \<^verbatim>\<open>TypeError\<close> and, after a contract number, a missing plan name or
  organization type raises \<^verbatim>\<open>AttributeError\<close>; so does the aggregation of a table with
  such a cell, while \<^verbatim>\<open>get_org\<close> answers Other to the same missing contract number.
\<close>

theorem identify_plan_type_classify:
  "(contract_number \<noteq> PyNaN \<and>
    (truthy contract_number \<longrightarrow> plan_name \<noteq> PyNaN \<and> org_type \<noteq> PyNaN) \<longrightarrow>
      identify_plan_type contract_number plan_name org_type =
        Inr (classify contract_number plan_name org_type)) \<and>
   identify_plan_type PyNaN plan_name org_type = Inl TypeError \<and>
   (truthy contract_number \<and> contract_number \<noteq> PyNaN \<and>
    (plan_name = PyNaN \<or> org_type = PyNaN) \<longrightarrow>
      identify_plan_type contract_number plan_name org_type = Inl AttributeError) \<and>
   aggregate_enrollment lib missing_contract_table = Inl TypeError \<and>
   aggregate_enrollment lib missing_plan_name_table = Inl AttributeError \<and>
   get_org lookup PyNaN = Inr ''Other''"
proof -
  have a: "aggregate_enrollment lib missing_contract_table = Inl TypeError"
    "aggregate_enrollment lib missing_plan_name_table = Inl AttributeError"
    by (simp_all add: aggregate_enrollment_def missing_cell_tables)
  have g: "get_org lookup PyNaN = Inr ''Other''"
    by (simp add: get_org_def)
  from identify_plan_type_on_strings [of contract_number plan_name org_type]
    identify_plan_type_TypeError [of plan_name org_type]
    identify_plan_type_AttributeError [of contract_number plan_name org_type] a g
  show ?thesis by blast
qed

theorem identify_plan_type_classify_witness:
  "PyStr ''H1234'' \<noteq> PyNaN \<and> truthy (PyStr ''H1234'') \<and>
   PyStr ''Sample PPO Plan'' \<noteq> PyNaN \<and> PyStr [] \<noteq> PyNaN \<and>
   identify_plan_type (PyStr ''H1234'') (PyStr ''Sample PPO Plan'') (PyStr []) = Inr ''PPO'' \<and>
   identify_plan_type (PyStr ''H1234'') (PyStr ''Sample Plan'') (PyStr []) = Inr ''HMO'' \<and>
   identify_plan_type (PyStr ''H1234'') (PyStr []) (PyStr ''Dual Eligible SNP'') = Inr ''DSNP'' \<and>
   identify_plan_type (PyStr ''R5826'') (PyStr ''Care D-SNP'') PyNone = Inr ''DSNP'' \<and>
   identify_plan_type (PyStr ''R5826'') (PyStr []) (PyStr []) = Inr ''PPO'' \<and>
   identify_plan_type (PyStr ''S1234'') (PyStr []) (PyStr []) = Inr ''Other'' \<and>
   identify_plan_type (PyStr []) PyNaN PyNaN = Inr ''Other'' \<and>
   identify_plan_type (PyStr ''H1234'') PyNaN (PyStr []) = Inl AttributeError \<and>
   identify_plan_type PyNaN (PyStr []) (PyStr []) = Inl TypeError"
proof -
  have c: "classify (PyStr ''H1234'') (PyStr ''Sample PPO Plan'') (PyStr []) = ''PPO''"
    "classify (PyStr ''H1234'') (PyStr ''Sample Plan'') (PyStr []) = ''HMO''"
    "classify (PyStr ''H1234'') (PyStr []) (PyStr ''Dual Eligible SNP'') = ''DSNP''"
    "classify (PyStr ''R5826'') (PyStr ''Care D-SNP'') PyNone = ''DSNP''"
    "classify (PyStr ''R5826'') (PyStr []) (PyStr []) = ''PPO''"
    "classify (PyStr ''S1234'') (PyStr []) (PyStr []) = ''Other''"
    "classify (PyStr []) PyNaN PyNaN = ''Other''"
    by code_simp+
  show ?thesis
    using identify_plan_type_classify [of "PyStr ''H1234''" "PyStr ''Sample PPO Plan''" "PyStr []"]
      identify_plan_type_classify [of "PyStr ''H1234''" "PyStr ''Sample Plan''" "PyStr []"]
      identify_plan_type_classify [of "PyStr ''H1234''" "PyStr []" "PyStr ''Dual Eligible SNP''"]
      identify_plan_type_classify [of "PyStr ''R5826''" "PyStr ''Care D-SNP''" PyNone]
      identify_plan_type_classify [of "PyStr ''R5826''" "PyStr []" "PyStr []"]
      identify_plan_type_classify [of "PyStr ''S1234''" "PyStr []" "PyStr []"]
      identify_plan_type_classify [of "PyStr []" PyNaN PyNaN]
      identify_plan_type_classify [of "PyStr ''H1234''" PyNaN "PyStr []"]
      identify_plan_type_classify [of PyNaN "PyStr []" "PyStr []"]
      c
    by simp
qed

section \<open>The parent organization follows its priority order\<close>

lemma infer_from_name_keyword_match:
  "infer_from_name (lower n) = (case keyword_match n of Some parent \<Rightarrow> parent | None \<Rightarrow> ''Other'')"
  by (auto simp: infer_from_name_def keyword_match_def split: option.splits)

lemma take5: "(if 5 \<le> length s then take 5 s else s) = take 5 s"
  by simp

lemma get_parent_org_str:
  assumes "s \<noteq> []"
  shows "get_parent_org (PyStr s) (PyStr n) = Inr (resolve_parent_org Map.empty (PyStr s) n)"
proof -
  have "get_parent_org (PyStr s) (PyStr n) =
        (case last_defined PARENT_ORG_MAPPING_items (take 5 s) of
           Some org \<Rightarrow> Inr org
         | None \<Rightarrow> Inr (infer_from_name (lower n)))"
    using assms unfolding get_parent_org_def Let_def take5 static_lookup
    by (simp split: option.splits)
  also have "\<dots> = Inr (resolve_parent_org Map.empty (PyStr s) n)"
    using assms unfolding resolve_parent_org_def infer_from_name_keyword_match
    by (simp split: option.splits)
  finally show ?thesis .
qed

text \<open>
  Claim C3. For a table without an organization column, \<^verbatim>\<open>get_org\<close> resolves the parent
  organization of a contract cell in the priority order of the specification: Other for a
  missing contract number; else the entry of the full contract number in the contract-info
  table, before the static table is looked at; else the static entry of the first five
  characters; else the first keyword match of the organization name, which is the empty
  name here; else Other. \<^verbatim>\<open>get_parent_org\<close> follows the same order from the static table
  on, for any organization name. A cell read from a file is never the empty string.
\<close>

theorem get_org_priority:
  assumes "contract \<noteq> PyStr []"
  shows "get_org lookup contract = Inr (resolve_parent_org lookup contract []) \<and>
     (\<forall>s. contract = PyStr s \<longrightarrow>
         get_parent_org contract (PyStr org_name) = Inr (resolve_parent_org Map.empty contract org_name))"
proof (cases contract)
  case (PyStr s)
  with assms have s: "s \<noteq> []" by simp
  have "get_org lookup (PyStr s) = Inr (resolve_parent_org lookup (PyStr s) [])"
    using s get_parent_org_str [OF s, of "[]"]
    unfolding get_org_def resolve_parent_org_def by (simp split: option.splits)
  then show ?thesis using get_parent_org_str [OF s] PyStr by simp
qed (simp_all add: get_org_def resolve_parent_org_def)

theorem get_org_priority_witness:
  "PyStr ''H0028'' \<noteq> PyStr [] \<and>
   get_org [''H0028'' \<mapsto> ''Acme Health''] (PyStr ''H0028'') = Inr ''Acme Health'' \<and>
   get_org Map.empty (PyStr ''H0028'') = Inr ''Humana'' \<and>
   get_org Map.empty (PyStr ''H9999'') = Inr ''Other'' \<and>
   get_parent_org (PyStr ''H9999'') (PyStr ''Anthem Blue Cross'') = Inr ''Elevance Health (Anthem)''"
proof -
  have l1: "last_defined PARENT_ORG_MAPPING_items (take 5 ''H0028'') = Some ''Humana''"
    by code_simp
  have l2: "last_defined PARENT_ORG_MAPPING_items (take 5 ''H9999'') = None"
    by code_simp
  have k1: "keyword_match [] = None"
    by code_simp
  have k2: "keyword_match ''Anthem Blue Cross'' = Some ''Elevance Health (Anthem)''"
    by code_simp
  have n: "PyStr ''H0028'' \<noteq> PyStr []" "PyStr ''H9999'' \<noteq> PyStr []"
    by simp_all
  show ?thesis
    using get_org_priority [OF n(1), of "[''H0028'' \<mapsto> ''Acme Health'']" "[]"]
      get_org_priority [OF n(1), of Map.empty "[]"]
      get_org_priority [OF n(2), of Map.empty "''Anthem Blue Cross''"]
      l1 l2 k1 k2
    by (simp add: resolve_parent_org_def)
qed

section \<open>Enrollment coercion\<close>


























section \<open>The schema error\<close>

lemma first_matches_Cons:
  "first_matches cols ((std, vars) # ms) =
     (case find (\<lambda>var. var \<in> set cols) vars of
        Some var \<Rightarrow> (var, std) # first_matches cols ms
      | None \<Rightarrow> first_matches cols ms)"
  by (simp add: first_matches_def split: option.splits)

lemma first_matches_Nil: "first_matches cols [] = []"
  by (simp add: first_matches_def)

lemma in_first_matches:
  "(var, std) \<in> set (first_matches cols ms) \<longleftrightarrow>
     (\<exists>vars. (std, vars) \<in> set ms \<and> find (\<lambda>v. v \<in> set cols) vars = Some var)"
proof (induction ms)
  case Nil
  then show ?case by (simp add: first_matches_Nil)
next
  case (Cons m ms)
  obtain s vs where m: "m = (s, vs)" by (cases m)
  show ?case
    unfolding m first_matches_Cons using Cons.IH
    by (auto split: option.splits)
qed

lemma find_Some_in: "find P xs = Some x \<Longrightarrow> x \<in> set xs \<and> P x"
  by (induction xs) (auto split: if_splits)

lemma first_matches_keys:
  "fst ` set (first_matches cols ms) \<subseteq> set (concat (map snd ms))"
proof
  fix v assume "v \<in> fst ` set (first_matches cols ms)"
  then obtain s where "(v, s) \<in> set (first_matches cols ms)" by auto
  then obtain vars where "(s, vars) \<in> set ms" "find (\<lambda>v. v \<in> set cols) vars = Some v"
    unfolding in_first_matches by blast
  then show "v \<in> set (concat (map snd ms))"
    using find_Some_in [of "\<lambda>v. v \<in> set cols" vars v] by force
qed

lemma distinct_first_matches:
  "distinct (concat (map snd ms)) \<Longrightarrow> distinct (map fst (first_matches cols ms))"
proof (induction ms)
  case Nil
  then show ?case by (simp add: first_matches_Nil)
next
  case (Cons m ms)
  obtain s vs where m: "m = (s, vs)" by (cases m)
  from Cons.prems have d: "distinct (concat (map snd ms))"
    and disj: "set vs \<inter> set (concat (map snd ms)) = {}" by (auto simp: m)
  show ?case
  proof (cases "find (\<lambda>var. var \<in> set cols) vs")
    case None
    then show ?thesis unfolding m first_matches_Cons using Cons.IH [OF d] by simp
  next
    case (Some v)
    then have "v \<in> set vs" using find_Some_in by fastforce
    with disj first_matches_keys [of cols ms] have "v \<notin> fst ` set (first_matches cols ms)"
      by blast
    then show ?thesis unfolding m first_matches_Cons using Cons.IH [OF d] Some by simp
  qed
qed

lemma distinct_variations: "distinct (concat (map snd column_mappings))"
  by code_simp

lemma distinct_standard_names: "distinct (map fst column_mappings)"
  by code_simp

lemma renamed_first_matches: "renamed cols = dict_of_items (first_matches cols column_mappings)"
  by (simp add: renamed_def first_matches_def)

lemma map_of_renamed:
  "map_of (renamed cols) var = Some std \<longleftrightarrow>
     (\<exists>vars. (std, vars) \<in> set column_mappings \<and> find (\<lambda>v. v \<in> set cols) vars = Some var)"
proof -
  have d: "distinct (map fst (rev (first_matches cols column_mappings)))"
    using distinct_first_matches [OF distinct_variations, of cols]
    by (simp add: rev_map [symmetric])
  have "map_of (renamed cols) var = Some std \<longleftrightarrow>
        (var, std) \<in> set (rev (first_matches cols column_mappings))"
    unfolding renamed_first_matches map_of_dict_of_items using map_of_eq_Some_iff [OF d] by simp
  then show ?thesis by (simp add: in_first_matches)
qed

lemma in_mappings_synonyms: "(std, vars) \<in> set column_mappings \<Longrightarrow> vars = synonyms std"
  unfolding synonyms_def using map_of_eq_Some_iff [OF distinct_standard_names, of std vars]
  by simp

lemma required_in_mappings:
  "field \<in> set required \<Longrightarrow> (field, synonyms field) \<in> set column_mappings \<and> field \<in> set (synonyms field)"
  unfolding required_def synonyms_def column_mappings_def by auto

lemma find_None_iff': "find P xs = None \<longleftrightarrow> \<not> list_ex P xs"
  by (auto simp: find_None_iff list_ex_iff)

lemma required_present_iff:
  assumes "field \<in> set required"
  shows "field \<in> set (rename_columns (renamed cols) cols) \<longleftrightarrow> has_match cols field"
proof
  assume "has_match cols field"
  then obtain var where f: "find (\<lambda>v. v \<in> set cols) (synonyms field) = Some var"
    unfolding has_match_def using find_None_iff' [of "\<lambda>v. v \<in> set cols" "synonyms field"]
    by (cases "find (\<lambda>v. v \<in> set cols) (synonyms field)") auto
  then have "var \<in> set cols" using find_Some_in by fastforce
  moreover have "map_of (renamed cols) var = Some field"
    unfolding map_of_renamed using f required_in_mappings [OF assms] by blast
  ultimately show "field \<in> set (rename_columns (renamed cols) cols)"
    unfolding rename_columns_def by force
next
  assume "field \<in> set (rename_columns (renamed cols) cols)"
  then obtain c where c: "c \<in> set cols"
    and r: "(case map_of (renamed cols) c of Some n \<Rightarrow> n | None \<Rightarrow> c) = field"
    unfolding rename_columns_def by auto
  show "has_match cols field"
  proof (cases "map_of (renamed cols) c")
    case None
    with r have "c = field" by simp
    with c required_in_mappings [OF assms] show ?thesis
      unfolding has_match_def list_ex_iff by blast
  next
    case (Some n)
    with r have "map_of (renamed cols) c = Some field" by simp
    then obtain vars where v: "(field, vars) \<in> set column_mappings"
      and f: "find (\<lambda>v. v \<in> set cols) vars = Some c"
      unfolding map_of_renamed by blast
    from v have "vars = synonyms field" by (rule in_mappings_synonyms)
    with f find_Some_in [of "\<lambda>v. v \<in> set cols" vars c] show ?thesis
      unfolding has_match_def list_ex_iff by blast
  qed
qed

lemma missing_eq:
  "filter (\<lambda>col. col \<notin> set (rename_columns (renamed cols) cols)) required = missing_fields cols"
  unfolding missing_fields_def
  by (rule filter_cong) (simp_all add: required_present_iff)

text \<open>
  Claim C7, amended. The column stage raises an error if and only if at least one of the
  required fields contract_number, state and enrollment has no synonym among the
  standardized column names. The error raised carries the list of the missing required
  fields; the list of the columns that were available is printed just before the error is
  raised, and is no part of the error.
\<close>

theorem normalize_columns_schema_error:
  "normalize_columns header =
     (let cols0 = map standardize_column header;
          cols = rename_columns (renamed cols0) cols0
      in if list_ex (\<lambda>field. \<not> has_match cols0 field) required
         then ([Available_columns cols], Inl (ValueError_missing_columns (missing_fields cols0)))
         else ([], Inr cols))"
proof -
  have "(missing_fields cols \<noteq> []) = list_ex (\<lambda>field. \<not> has_match cols field) required" for cols
    by (auto simp: missing_fields_def filter_empty_conv list_ex_iff)
  then show ?thesis
    unfolding normalize_columns_def Let_def missing_eq by simp
qed

text \<open>
  Two tables that miss the same field and have different columns raise the same error:
  the available columns are in what is printed, not in the error.
\<close>

theorem schema_error_counterexample:
  "snd (normalize_columns [''State'', ''Enrollment'']) =
     Inl (ValueError_missing_columns [''contract_number'']) \<and>
   snd (normalize_columns [''State'', ''Enrollment'', '' County Name '']) =
     Inl (ValueError_missing_columns [''contract_number'']) \<and>
   fst (normalize_columns [''State'', ''Enrollment'']) =
     [Available_columns [''state'', ''enrollment'']] \<and>
   fst (normalize_columns [''State'', ''Enrollment'', '' County Name '']) =
     [Available_columns [''state'', ''enrollment'', ''county'']]"
  by code_simp

lemma normalize_columns_example:
  "normalize_columns [''H Number'', ''Bene State'', ''Enrollees '', ''Plan Type''] =
     ([], Inr [''contract_number'', ''state'', ''enrollment'', ''plan_type''])"
  by code_simp

section \<open>The delta engine is guarded\<close>

lemma foldl_update_append:
  "distinct (map fst (acc @ kvs)) \<Longrightarrow>
   foldl (\<lambda>d (k, v). AList.update k v d) acc kvs = acc @ kvs"
proof (induction kvs arbitrary: acc)
  case Nil
  then show ?case by simp
next
  case (Cons kv kvs)
  obtain k v where kv: "kv = (k, v)" by (cases kv)
  from Cons.prems have "k \<notin> fst ` set acc" by (auto simp: kv)
  then have u: "AList.update k v acc = acc @ [(k, v)]"
    by (induction acc) auto
  from Cons.prems have "distinct (map fst ((acc @ [(k, v)]) @ kvs))" by (simp add: kv)
  from Cons.IH [OF this] show ?case by (simp add: kv u)
qed

lemma dict_of_items_distinct: "distinct (map fst kvs) \<Longrightarrow> dict_of_items kvs = kvs"
  using foldl_update_append [of "[]" kvs] by (simp add: dict_of_items_def)

lemma sequence_map_Inr: "(\<And>x. x \<in> set xs \<Longrightarrow> f x = Inr (g x)) \<Longrightarrow> sequence (map f xs) = Inr (map g xs)"
  by (induction xs) simp_all

lemma true_div_in_range:
  assumes "0 < b" "\<bar>a\<bar> < 2 ^ 64"
  shows "true_div a b = Inr (True_div a b)"
proof -
  define M :: int where "M = 2 ^ 1024 - 2 ^ 970"
  have m: "(2::int) ^ 64 \<le> M" unfolding M_def by simp
  have "0 \<le> M" unfolding M_def by simp
  with assms(1) have "M * 1 \<le> M * \<bar>b\<bar>"
    by (intro mult_left_mono) simp_all
  with m assms(2) have "\<bar>a\<bar> < M * \<bar>b\<bar>" by linarith
  then have "\<not> (2 ^ 1024 - 2 ^ 970) * \<bar>b\<bar> \<le> \<bar>a\<bar>" unfolding M_def by linarith
  with assms(1) show ?thesis unfolding true_div_def by simp
qed

lemma change_pct_expected:
  assumes "int64_range cur" "int64_range base"
  shows "change_pct (cur - base) base = Inr (ch_change_pct (expected_change cur base))"
proof (cases "0 < base")
  case True
  from assms have "\<bar>cur - base\<bar> < 2 ^ 64" by (auto simp: int64_range_def)
  from true_div_in_range [OF True this] True show ?thesis
    by (simp add: change_pct_def expected_change_def)
next
  case False
  then show ?thesis by (simp add: change_pct_def expected_change_def)
qed

lemma change_of_expected:
  assumes "int64_range cur" "int64_range base"
  shows "change_of cur base = Inr (expected_change cur base)"
  using change_pct_expected [OF assms]
  by (simp add: change_of_def Let_def expected_change_def)

lemma dimension_changes_expected:
  assumes "distinct (map fst cur)" "list_all (\<lambda>kv. int64_range (snd kv)) cur"
    "\<And>k. int64_range (baseline k)"
  shows "dimension_changes cur baseline = Inr (expected_changes cur baseline)"
proof -
  have "sequence (map (\<lambda>(k, curr_total).
                            case change_of curr_total (baseline k) of
                              Inl e \<Rightarrow> Inl e
                            | Inr c \<Rightarrow> Inr (k, c)) cur) =
        Inr (map (\<lambda>kv. (fst kv, expected_change (snd kv) (baseline (fst kv)))) cur)"
  proof (rule sequence_map_Inr)
    fix x assume "x \<in> set cur"
    with assms(2) have "int64_range (snd x)" by (simp add: list_all_iff)
    from change_of_expected [OF this assms(3)] show
      "(case x of (k, curr_total) \<Rightarrow>
            (case change_of curr_total (baseline k) of
               Inl e \<Rightarrow> Inl e
             | Inr c \<Rightarrow> Inr (k, c))) = Inr (fst x, expected_change (snd x) (baseline (fst x)))"
      by (cases x) simp
  qed
  moreover have "map fst (expected_changes cur baseline) = map fst cur"
    by (simp add: expected_changes_def comp_def)
  ultimately show ?thesis
    using assms(1) by (simp add: dimension_changes_def expected_changes_def [symmetric] dict_of_items_distinct)
qed

lemma int64_range_0: "int64_range 0"
  by (simp add: int64_range_def)

lemma get_or_0_range:
  "list_all (\<lambda>kv. int64_range (snd kv)) d \<Longrightarrow> int64_range (get_or_0 d k)"
  by (auto simp: get_or_0_def list_all_iff int64_range_0 split: option.splits dest!: map_of_SomeD)

lemma county_total_or_0_range:
  "list_all (\<lambda>kc. int64_range (cd_total (snd kc))) d \<Longrightarrow> int64_range (county_total_or_0 d k)"
  by (auto simp: county_total_or_0_def list_all_iff int64_range_0 split: option.splits dest!: map_of_SomeD)

lemma map_of_expected_changes:
  "distinct (map fst cur) \<Longrightarrow> (k, v) \<in> set cur \<Longrightarrow>
   map_of (expected_changes cur baseline) k = Some (expected_change v (baseline k))"
  unfolding expected_changes_def by (induction cur) (auto simp: rev_image_eqI)

lemma pct_finite_quotient:
  assumes "0 < b" "\<bar>d\<bar> < 2 ^ 64"
  shows "pct_finite (PyFloat (Round_2 (Times_100 (True_div d b))))"
proof -
  from assms(2) have "100 * \<bar>d\<bar> < 2 ^ 72 * 1" by simp
  also from assms(1) have "(2::int) ^ 72 * 1 \<le> 2 ^ 72 * \<bar>b\<bar>"
    by (intro mult_left_mono) simp_all
  finally have "100 * \<bar>d\<bar> < 2 ^ 72 * \<bar>b\<bar>" .
  with assms(1) show ?thesis by (simp add: abs_mult)
qed

lemma pct_finite_expected:
  assumes "int64_range cur" "int64_range base"
  shows "pct_finite (ch_change_pct (expected_change cur base))"
proof (cases "0 < base")
  case True
  from assms have "\<bar>cur - base\<bar> < 2 ^ 64" by (auto simp: int64_range_def)
  from pct_finite_quotient [OF True this] True show ?thesis
    by (simp only: expected_change_def change.simps if_True)
next
  case False
  then show ?thesis by (simp add: expected_change_def)
qed

lemma list_all_pct_finite_expected:
  assumes "list_all (\<lambda>kv. int64_range (snd kv)) cur" "\<And>k. int64_range (baseline k)"
  shows "list_all (\<lambda>kc. pct_finite (ch_change_pct (snd kc))) (expected_changes cur baseline)"
  using assms by (auto simp: expected_changes_def list_all_iff pct_finite_expected)

lemma well_formed_county_totals:
  "well_formed s \<Longrightarrow> distinct (map fst (county_totals s)) \<and>
     list_all (\<lambda>kv. int64_range (snd kv)) (county_totals s)"
  by (simp add: well_formed_def county_totals_def comp_def list_all_iff)

lemma county_totals_alt:
  "map (\<lambda>(k, c). (k, cd_total c)) (counties s) = county_totals s"
  by (simp add: county_totals_def case_prod_beta)

lemma calculate_changes_lookups:
  assumes "well_formed current" and "well_formed december"
  shows "\<exists>ch. calculate_changes current december = Inr ch \<and>
     changes_counties ch =
       expected_changes (county_totals current) (county_total_or_0 (counties december)) \<and>
     changes_by_org ch = expected_changes (by_org current) (get_or_0 (by_org december)) \<and>
     changes_by_state ch = expected_changes (by_state current) (get_or_0 (by_state december)) \<and>
     changes_summary ch =
       expected_summary (total_enrollment (metadata current)) (total_enrollment (metadata december)) \<and>
     list_all (\<lambda>kc. pct_finite (ch_change_pct (snd kc)))
       (changes_counties ch @ changes_by_org ch @ changes_by_state ch) \<and>
     pct_finite (total_change_pct (changes_summary ch))"
proof -
  let ?tc = "total_enrollment (metadata current)"
  let ?td = "total_enrollment (metadata december)"
  from assms have tr: "int64_range ?tc" "int64_range ?td" by (simp_all add: well_formed_def)
  have s: "change_pct (?tc - ?td) ?td = Inr (ch_change_pct (expected_change ?tc ?td))"
    by (rule change_pct_expected [OF tr])
  have cr: "\<And>k. int64_range (county_total_or_0 (counties december) k)"
    using assms(2) by (simp add: well_formed_def county_total_or_0_range)
  have orr: "\<And>k. int64_range (get_or_0 (by_org december) k)"
    using assms(2) by (simp add: well_formed_def get_or_0_range)
  have sr: "\<And>k. int64_range (get_or_0 (by_state december) k)"
    using assms(2) by (simp add: well_formed_def get_or_0_range)
  from well_formed_county_totals [OF assms(1)]
  have c: "dimension_changes (county_totals current) (county_total_or_0 (counties december)) =
      Inr (expected_changes (county_totals current) (county_total_or_0 (counties december)))"
    and cf: "list_all (\<lambda>kc. pct_finite (ch_change_pct (snd kc)))
      (expected_changes (county_totals current) (county_total_or_0 (counties december)))"
    using cr by (simp_all add: dimension_changes_expected list_all_pct_finite_expected)
  from assms(1) have
    o: "dimension_changes (by_org current) (get_or_0 (by_org december)) =
      Inr (expected_changes (by_org current) (get_or_0 (by_org december)))"
    and "of": "list_all (\<lambda>kc. pct_finite (ch_change_pct (snd kc)))
      (expected_changes (by_org current) (get_or_0 (by_org december)))"
    using orr by (simp_all add: well_formed_def dimension_changes_expected list_all_pct_finite_expected)
  from assms(1) have
    st: "dimension_changes (by_state current) (get_or_0 (by_state december)) =
      Inr (expected_changes (by_state current) (get_or_0 (by_state december)))"
    and stf: "list_all (\<lambda>kc. pct_finite (ch_change_pct (snd kc)))
      (expected_changes (by_state current) (get_or_0 (by_state december)))"
    using sr by (simp_all add: well_formed_def dimension_changes_expected list_all_pct_finite_expected)
  have res: "calculate_changes current december =
     Inr \<lparr>changes_counties =
            expected_changes (county_totals current) (county_total_or_0 (counties december)),
          changes_by_org = expected_changes (by_org current) (get_or_0 (by_org december)),
          changes_by_state = expected_changes (by_state current) (get_or_0 (by_state december)),
          changes_summary = expected_summary ?tc ?td\<rparr>"
    unfolding calculate_changes_def Let_def county_totals_alt
    by (simp add: s c o st expected_summary_def expected_change_def)
  have fin: "pct_finite (total_change_pct (expected_summary ?tc ?td))"
    using pct_finite_expected [OF tr] by (simp add: expected_summary_def)
  from res cf "of" stf fin show ?thesis by simp
qed

lemma get_or_0_baseline_of: "get_or_0 d = baseline_of d"
proof
  fix k show "get_or_0 d k = baseline_of d k"
    by (induction d) (auto simp: get_or_0_def baseline_of_def)
qed

lemma county_total_or_0_baseline_of:
  "county_total_or_0 (counties s) = baseline_of (county_totals s)"
proof
  fix k
  have "county_total_or_0 cs k = baseline_of (map (\<lambda>kc. (fst kc, cd_total (snd kc))) cs) k" for cs
    by (induction cs) (auto simp: county_total_or_0_def baseline_of_def)
  then show "county_total_or_0 (counties s) k = baseline_of (county_totals s) k"
    by (simp add: county_totals_def)
qed

lemma baseline_of_present:
  "distinct (map fst d) \<Longrightarrow> (k, b) \<in> set d \<Longrightarrow> baseline_of d k = b"
proof (induction d)
  case Nil
  then show ?case by simp
next
  case (Cons kv d)
  show ?case
  proof (cases "fst kv = k")
    case True
    with Cons.prems have "kv = (k, b)"
      by (cases kv) (auto simp: rev_image_eqI)
    then show ?thesis by (simp add: baseline_of_def)
  next
    case False
    with Cons.prems have "(k, b) \<in> set d" "distinct (map fst d)" by auto
    with Cons.IH False show ?thesis by (simp add: baseline_of_def)
  qed
qed

lemma baseline_of_absent: "k \<notin> fst ` set d \<Longrightarrow> baseline_of d k = 0"
proof -
  assume "k \<notin> fst ` set d"
  then have "filter (\<lambda>kv. fst kv = k) d = []"
    by (auto simp: filter_empty_conv)
  then show ?thesis by (simp add: baseline_of_def)
qed

text \<open>
  Claim C5. For two well-formed snapshots \<^verbatim>\<open>calculate_changes\<close> raises no error, neither
  a division by zero nor an overflow, and for every key of the current counties, by_org and
  by_state, and for the summary, its entry has the current value, the baseline value of
  that key, the change current minus baseline, and as percentage
  \<^verbatim>\<open>round(change / baseline * 100, 2)\<close> when the baseline is strictly positive and the
  integer 0 otherwise; every percentage is finite. The baseline value of a key is the
  value that the baseline snapshot records for it, and 0 for a key absent from the
  baseline. A current value 100 against a baseline 0 gives the change 100 and the
  percentage 0.
\<close>

theorem calculate_changes_guarded:
  assumes "well_formed current" and "well_formed december"
  shows "\<exists>ch. calculate_changes current december = Inr ch \<and>
     changes_counties ch =
       expected_changes (county_totals current) (baseline_of (county_totals december)) \<and>
     changes_by_org ch = expected_changes (by_org current) (baseline_of (by_org december)) \<and>
     changes_by_state ch = expected_changes (by_state current) (baseline_of (by_state december)) \<and>
     changes_summary ch =
       expected_summary (total_enrollment (metadata current)) (total_enrollment (metadata december)) \<and>
     list_all (\<lambda>kc. pct_finite (ch_change_pct (snd kc)))
       (changes_counties ch @ changes_by_org ch @ changes_by_state ch) \<and>
     pct_finite (total_change_pct (changes_summary ch)) \<and>
     ((k, b) \<in> set (county_totals december) \<longrightarrow> baseline_of (county_totals december) k = b) \<and>
     ((k, b) \<in> set (by_org december) \<longrightarrow> baseline_of (by_org december) k = b) \<and>
     ((k, b) \<in> set (by_state december) \<longrightarrow> baseline_of (by_state december) k = b) \<and>
     (k \<notin> fst ` set (county_totals december) \<longrightarrow> baseline_of (county_totals december) k = 0) \<and>
     (k \<notin> fst ` set (by_org december) \<longrightarrow> baseline_of (by_org december) k = 0) \<and>
     (k \<notin> fst ` set (by_state december) \<longrightarrow> baseline_of (by_state december) k = 0) \<and>
     expected_change 100 0 =
       \<lparr>ch_current = 100, ch_december = 0, ch_change = 100, ch_change_pct = PyInt 0\<rparr>"
proof -
  from calculate_changes_lookups [OF assms] obtain ch where
    r: "calculate_changes current december = Inr ch"
    and c1: "changes_counties ch =
         expected_changes (county_totals current) (county_total_or_0 (counties december))"
    and c2: "changes_by_org ch = expected_changes (by_org current) (get_or_0 (by_org december))"
    and c3: "changes_by_state ch =
         expected_changes (by_state current) (get_or_0 (by_state december))"
    and c4: "changes_summary ch =
         expected_summary (total_enrollment (metadata current)) (total_enrollment (metadata december))"
    and c5: "list_all (\<lambda>kc. pct_finite (ch_change_pct (snd kc)))
         (changes_counties ch @ changes_by_org ch @ changes_by_state ch)"
    and c6: "pct_finite (total_change_pct (changes_summary ch))"
    by blast
  from assms(2) have d: "distinct (map fst (county_totals december))"
    "distinct (map fst (by_org december))" "distinct (map fst (by_state december))"
    by (simp_all add: well_formed_def county_totals_def comp_def)
  have p: "(k, b) \<in> set (county_totals december) \<longrightarrow> baseline_of (county_totals december) k = b"
    "(k, b) \<in> set (by_org december) \<longrightarrow> baseline_of (by_org december) k = b"
    "(k, b) \<in> set (by_state december) \<longrightarrow> baseline_of (by_state december) k = b"
    using d by (simp_all add: baseline_of_present)
  have n: "k \<notin> fst ` set (county_totals december) \<longrightarrow> baseline_of (county_totals december) k = 0"
    "k \<notin> fst ` set (by_org december) \<longrightarrow> baseline_of (by_org december) k = 0"
    "k \<notin> fst ` set (by_state december) \<longrightarrow> baseline_of (by_state december) k = 0"
    by (simp_all add: baseline_of_absent)
  have e: "expected_change 100 0 =
       \<lparr>ch_current = 100, ch_december = 0, ch_change = 100, ch_change_pct = PyInt 0\<rparr>"
    by (simp add: expected_change_def)
  show ?thesis
  proof (intro exI conjI)
    show "calculate_changes current december = Inr ch" by (rule r)
    show "changes_counties ch =
       expected_changes (county_totals current) (baseline_of (county_totals december))"
      using c1 by (simp only: county_total_or_0_baseline_of)
    show "changes_by_org ch = expected_changes (by_org current) (baseline_of (by_org december))"
      using c2 by (simp only: get_or_0_baseline_of)
    show "changes_by_state ch =
       expected_changes (by_state current) (baseline_of (by_state december))"
      using c3 by (simp only: get_or_0_baseline_of)
  qed (rule c4 c5 c6 p n e)+
qed

theorem calculate_changes_guarded_witness:
  "well_formed current_example \<and> well_formed december_example \<and>
   (''Z'', 50) \<in> set (by_org december_example) \<and>
   ''Y'' \<notin> fst ` set (by_org december_example) \<and>
   baseline_of (by_org december_example) ''Z'' = 50 \<and>
   baseline_of (by_org december_example) ''Y'' = 0 \<and>
   (\<exists>ch. calculate_changes current_example december_example = Inr ch \<and>
      changes_by_org ch =
        [(''X'', \<lparr>ch_current = 100, ch_december = 0, ch_change = 100, ch_change_pct = PyInt 0\<rparr>),
         (''Y'', \<lparr>ch_current = 75, ch_december = 0, ch_change = 75, ch_change_pct = PyInt 0\<rparr>),
         (''Z'', \<lparr>ch_current = 60, ch_december = 50, ch_change = 10,
            ch_change_pct = PyFloat (Round_2 (Times_100 (True_div 10 50)))\<rparr>)] \<and>
      changes_counties ch =
        [(''06001'', \<lparr>ch_current = 175, ch_december = 50, ch_change = 125,
            ch_change_pct = PyFloat (Round_2 (Times_100 (True_div 125 50)))\<rparr>),
         (''06003'', \<lparr>ch_current = 60, ch_december = 0, ch_change = 60,
            ch_change_pct = PyInt 0\<rparr>)] \<and>
      changes_by_state ch =
        [(''CA'', \<lparr>ch_current = 235, ch_december = 200, ch_change = 35,
            ch_change_pct = PyFloat (Round_2 (Times_100 (True_div 35 200)))\<rparr>)] \<and>
      changes_summary ch =
        \<lparr>total_current = 235, total_december = 200, total_change = 35,
         total_change_pct = PyFloat (Round_2 (Times_100 (True_div 35 200)))\<rparr>)"
proof -
  have w: "well_formed current_example" "well_formed december_example"
    by (simp_all add: well_formed_def current_example_def december_example_def int64_range_def
        one_county_def)
  have z: "(''Z'', 50) \<in> set (by_org december_example)"
    "''Y'' \<notin> fst ` set (by_org december_example)"
    by (simp_all add: december_example_def)
  have bo: "by_org december_example = [(''X'', 0), (''Z'', 50), (''W'', 150)]"
    "by_org current_example = [(''X'', 100), (''Y'', 75), (''Z'', 60)]"
    "by_state december_example = [(''CA'', 200)]" "by_state current_example = [(''CA'', 235)]"
    "county_totals current_example = [(''06001'', 175), (''06003'', 60)]"
    "county_totals december_example = [(''06001'', 50), (''06005'', 150)]"
    "total_enrollment (metadata current_example) = 235"
    "total_enrollment (metadata december_example) = 200"
    by (simp_all add: current_example_def december_example_def county_totals_def one_county_def)
  note t = calculate_changes_guarded [OF w, of "''Z''" 50]
  note u = calculate_changes_guarded [OF w, of "''Y''" 0]
  from t obtain ch where r: "calculate_changes current_example december_example = Inr ch"
    and c1: "changes_counties ch = expected_changes (county_totals current_example)
         (baseline_of (county_totals december_example))"
    and c2: "changes_by_org ch =
         expected_changes (by_org current_example) (baseline_of (by_org december_example))"
    and c3: "changes_by_state ch =
         expected_changes (by_state current_example) (baseline_of (by_state december_example))"
    and c4: "changes_summary ch = expected_summary (total_enrollment (metadata current_example))
         (total_enrollment (metadata december_example))"
    and bz: "(''Z'', 50) \<in> set (by_org december_example) \<longrightarrow>
         baseline_of (by_org december_example) ''Z'' = 50"
    by (elim exE conjE)
  from u obtain ch' :: changes where
    "by": "''Y'' \<notin> fst ` set (by_org december_example) \<longrightarrow>
         baseline_of (by_org december_example) ''Y'' = 0"
    by (elim exE conjE)
  have b1: "baseline_of (by_org december_example) ''Z'' = 50" using bz z(1) by simp
  have b2: "baseline_of (by_org december_example) ''Y'' = 0" using "by" z(2) by simp
  have e1: "changes_by_org ch =
        [(''X'', \<lparr>ch_current = 100, ch_december = 0, ch_change = 100, ch_change_pct = PyInt 0\<rparr>),
         (''Y'', \<lparr>ch_current = 75, ch_december = 0, ch_change = 75, ch_change_pct = PyInt 0\<rparr>),
         (''Z'', \<lparr>ch_current = 60, ch_december = 50, ch_change = 10,
            ch_change_pct = PyFloat (Round_2 (Times_100 (True_div 10 50)))\<rparr>)]"
    unfolding c2 bo by (simp add: expected_changes_def expected_change_def baseline_of_def)
  have e2: "changes_counties ch =
        [(''06001'', \<lparr>ch_current = 175, ch_december = 50, ch_change = 125,
            ch_change_pct = PyFloat (Round_2 (Times_100 (True_div 125 50)))\<rparr>),
         (''06003'', \<lparr>ch_current = 60, ch_december = 0, ch_change = 60,
            ch_change_pct = PyInt 0\<rparr>)]"
    unfolding c1 bo by (simp add: expected_changes_def expected_change_def baseline_of_def)
  have e3: "changes_by_state ch =
        [(''CA'', \<lparr>ch_current = 235, ch_december = 200, ch_change = 35,
            ch_change_pct = PyFloat (Round_2 (Times_100 (True_div 35 200)))\<rparr>)]"
    unfolding c3 bo by (simp add: expected_changes_def expected_change_def baseline_of_def)
  have e4: "changes_summary ch =
        \<lparr>total_current = 235, total_december = 200, total_change = 35,
         total_change_pct = PyFloat (Round_2 (Times_100 (True_div 35 200)))\<rparr>"
    unfolding c4 bo by (simp add: expected_summary_def expected_change_def)
  show ?thesis
    by (intro conjI exI [of _ ch]) (rule w z b1 b2 r e1 e2 e3 e4)+
qed
section \<open>The derived columns\<close>

lemma sequence_Inr: "sequence xs = Inr ys \<Longrightarrow> xs = map Inr ys"
proof (induction xs arbitrary: ys)
  case Nil
  then show ?case by simp
next
  case (Cons x xs)
  then show ?case by (cases x) (auto split: sum.splits)
qed

lemma sequence_map_Inr_D:
  assumes "sequence (map f xs) = Inr ys"
  shows "ys = map (\<lambda>x. case f x of Inr y \<Rightarrow> y | Inl e \<Rightarrow> d) xs"
    and "\<And>x. x \<in> set xs \<Longrightarrow> \<exists>y. f x = Inr y"
proof -
  from sequence_Inr [OF assms] have m: "map f xs = map Inr ys" .
  then have l: "length xs = length ys" by (metis length_map)
  from m have n: "\<And>i. i < length xs \<Longrightarrow> f (xs ! i) = Inr (ys ! i)"
    by (metis l nth_map)
  show "ys = map (\<lambda>x. case f x of Inr y \<Rightarrow> y | Inl e \<Rightarrow> d) xs"
    by (rule nth_equalityI) (simp_all add: l n)
  show "\<exists>y. f x = Inr y" if "x \<in> set xs" for x
    using that n by (auto simp: in_set_conv_nth)
qed

lemma set_column_map:
  "set_column c (map g (rows df)) df =
     \<lparr>columns = (if c \<in> set (columns df) then columns df else columns df @ [c]),
      rows = map (\<lambda>r. r\<lparr>cell := (cell r)(c := g r)\<rparr>) (rows df)\<rparr>"
  by (simp add: set_column_def zip_map2 zip_same_conv_map comp_def)

lemma add_plan_type_D:
  assumes "add_plan_type df = Inr df1"
  shows "df1 = \<lparr>columns = (if Plan_type \<in> set (columns df) then columns df else columns df @ [Plan_type]),
      rows = map (\<lambda>r. r\<lparr>cell := (cell r)(Plan_type :=
           (case identify_plan_type (row_get df r Contract_number) (row_get df r Plan_name)
                   (row_get df r Org_type) of
              Inr p \<Rightarrow> PyStr p
            | Inl e \<Rightarrow> PyNaN))\<rparr>) (rows df)\<rparr>"
    and "\<And>r. r \<in> set (rows df) \<Longrightarrow> \<exists>p. identify_plan_type (row_get df r Contract_number)
            (row_get df r Plan_name) (row_get df r Org_type) = Inr p"
    and "rows df \<noteq> []"
proof -
  let ?f = "\<lambda>r. identify_plan_type (row_get df r Contract_number) (row_get df r Plan_name)
                   (row_get df r Org_type)"
  from assms show ne: "rows df \<noteq> []"
    by (auto simp: add_plan_type_def split: if_splits)
  with assms obtain pts where s: "sequence (map ?f (rows df)) = Inr pts"
    and d: "df1 = set_column Plan_type (map PyStr pts) df"
    by (auto simp: add_plan_type_def split: sum.splits)
  from sequence_map_Inr_D(2) [OF s] show
    ex: "\<And>r. r \<in> set (rows df) \<Longrightarrow> \<exists>p. ?f r = Inr p" .
  have "map PyStr pts = map (\<lambda>r. case ?f r of Inr p \<Rightarrow> PyStr p | Inl e \<Rightarrow> PyNaN) (rows df)"
    unfolding sequence_map_Inr_D(1) [OF s, of "[]"] map_map comp_def
  proof (rule map_cong [OF refl])
    fix r assume "r \<in> set (rows df)"
    from ex [OF this] obtain p where "?f r = Inr p" ..
    then show "PyStr (case ?f r of Inl e \<Rightarrow> [] | Inr y \<Rightarrow> y) =
        (case ?f r of Inl e \<Rightarrow> PyNaN | Inr p \<Rightarrow> PyStr p)" by simp
  qed
  with d show "df1 = \<lparr>columns = (if Plan_type \<in> set (columns df) then columns df else columns df @ [Plan_type]),
      rows = map (\<lambda>r. r\<lparr>cell := (cell r)(Plan_type :=
           (case ?f r of Inr p \<Rightarrow> PyStr p | Inl e \<Rightarrow> PyNaN))\<rparr>) (rows df)\<rparr>"
    by (simp add: set_column_map)
qed

lemma add_parent_org_D:
  assumes "add_parent_org df = Inr df2"
  shows "df2 = \<lparr>columns = (if Parent_org \<in> set (columns df) then columns df else columns df @ [Parent_org]),
      rows = map (\<lambda>r. r\<lparr>cell := (cell r)(Parent_org :=
           (if Organization \<in> set (columns df) then cell r Organization
            else case get_parent_org (row_get df r Contract_number) (PyStr []) of
                   Inr p \<Rightarrow> PyStr p
                 | Inl e \<Rightarrow> PyNaN))\<rparr>) (rows df)\<rparr>"
    and "\<And>r. r \<in> set (rows df) \<Longrightarrow> Organization \<notin> set (columns df) \<Longrightarrow>
           \<exists>p. get_parent_org (row_get df r Contract_number) (PyStr []) = Inr p"
proof -
  let ?f = "\<lambda>r. get_parent_org (row_get df r Contract_number) (PyStr [])"
  show "df2 = \<lparr>columns = (if Parent_org \<in> set (columns df) then columns df else columns df @ [Parent_org]),
      rows = map (\<lambda>r. r\<lparr>cell := (cell r)(Parent_org :=
           (if Organization \<in> set (columns df) then cell r Organization
            else case ?f r of Inr p \<Rightarrow> PyStr p | Inl e \<Rightarrow> PyNaN))\<rparr>) (rows df)\<rparr>"
  proof (cases "Organization \<in> set (columns df)")
    case True
    with assms show ?thesis by (simp add: add_parent_org_def set_column_map)
  next
    case False
    with assms obtain orgs where s: "sequence (map ?f (rows df)) = Inr orgs"
      and d: "df2 = set_column Parent_org (map PyStr orgs) df"
      by (auto simp: add_parent_org_def split: sum.splits)
    have "map PyStr orgs = map (\<lambda>r. case ?f r of Inr p \<Rightarrow> PyStr p | Inl e \<Rightarrow> PyNaN) (rows df)"
      unfolding sequence_map_Inr_D(1) [OF s, of "[]"] map_map comp_def
    proof (rule map_cong [OF refl])
      fix r assume "r \<in> set (rows df)"
      from sequence_map_Inr_D(2) [OF s this] obtain p where "?f r = Inr p" ..
      then show "PyStr (case ?f r of Inl e \<Rightarrow> [] | Inr y \<Rightarrow> y) =
        (case ?f r of Inl e \<Rightarrow> PyNaN | Inr p \<Rightarrow> PyStr p)" by simp
    qed
    with d False show ?thesis by (simp add: set_column_map)
  qed
  show "\<exists>p. ?f r = Inr p" if "r \<in> set (rows df)" "Organization \<notin> set (columns df)" for r
  proof -
    from assms that(2) obtain orgs where s: "sequence (map ?f (rows df)) = Inr orgs"
      by (auto simp: add_parent_org_def split: sum.splits)
    from sequence_map_Inr_D(2) [OF s that(1)] show ?thesis .
  qed
qed

lemma add_fips_eq:
  "add_fips df =
     \<lparr>columns = (if Fips \<in> set (columns df) then columns df else columns df @ [Fips]),
      rows = map (\<lambda>r. r\<lparr>cell := (cell r)(Fips :=
               (if Fips \<in> set (columns df) then cell r Fips else PyStr []))\<rparr>) (rows df)\<rparr>"
proof (cases "Fips \<in> set (columns df)")
  case True
  then show ?thesis by (simp add: add_fips_def map_idI)
next
  case False
  have "replicate (length (rows df)) (PyStr []) = map (\<lambda>r. PyStr []) (rows df)"
    by (simp add: map_replicate_const)
  with False show ?thesis by (simp add: add_fips_def set_column_map)
qed

lemma add_derived_columns_rows:
  assumes "add_derived_columns df = Inr df'"
  shows "rows df' = map (derived_row df) (rows df)"
    and "set (columns df') = set (columns df) \<union> {Plan_type, Parent_org, Fips}"
    and "\<And>r. r \<in> set (rows df) \<Longrightarrow> \<exists>p. cell (derived_row df r) Plan_type = PyStr p"
    and "\<And>r. r \<in> set (rows df) \<Longrightarrow> Organization \<notin> set (columns df) \<Longrightarrow>
           \<exists>p. cell (derived_row df r) Parent_org = PyStr p"
    and "rows df \<noteq> []"
proof -
  from assms obtain df1 df2 where 1: "add_plan_type df = Inr df1"
    and 2: "add_parent_org df1 = Inr df2" and 3: "df' = add_fips df2"
    by (auto simp: add_derived_columns_def split: sum.splits)
  note d1 = add_plan_type_D [OF 1] and d2 = add_parent_org_D [OF 2]
  show "rows df \<noteq> []" by (rule d1(3))
  have c1: "set (columns df1) = set (columns df) \<union> {Plan_type}"
    by (subst d1(1)) auto
  have c2: "set (columns df2) = set (columns df1) \<union> {Parent_org}"
    by (subst d2(1)) auto
  have g1: "row_get df1 (r\<lparr>cell := (cell r)(Plan_type := v)\<rparr>) Contract_number = row_get df r Contract_number" for r v
    by (simp add: row_get_def c1)
  have r2: "rows df2 = map (\<lambda>r. r\<lparr>cell := (cell r)
        (Plan_type :=
           (case identify_plan_type (row_get df r Contract_number) (row_get df r Plan_name)
                   (row_get df r Org_type) of
              Inr p \<Rightarrow> PyStr p
            | Inl e \<Rightarrow> PyNaN),
         Parent_org :=
           (if Organization \<in> set (columns df) then cell r Organization
            else case get_parent_org (row_get df r Contract_number) (PyStr []) of
                   Inr p \<Rightarrow> PyStr p
                 | Inl e \<Rightarrow> PyNaN))\<rparr>) (rows df)"
    by (subst d2(1), subst d1(1)) (simp add: c1 g1 comp_def)
  have f2: "Fips \<in> set (columns df2) \<longleftrightarrow> Fips \<in> set (columns df)"
    by (simp add: c1 c2)
  show "rows df' = map (derived_row df) (rows df)"
    unfolding 3 by (subst add_fips_eq) (simp add: r2 f2 derived_row_def comp_def)
  show "set (columns df') = set (columns df) \<union> {Plan_type, Parent_org, Fips}"
    unfolding 3 by (subst add_fips_eq) (auto simp: c1 c2)
  show "\<exists>p. cell (derived_row df r) Plan_type = PyStr p" if "r \<in> set (rows df)" for r
    using d1(2) [OF that] by (auto simp: derived_row_def)
  show "\<exists>p. cell (derived_row df r) Parent_org = PyStr p"
    if "r \<in> set (rows df)" "Organization \<notin> set (columns df)" for r
  proof -
    let ?r1 = "r\<lparr>cell := (cell r)(Plan_type :=
           (case identify_plan_type (row_get df r Contract_number) (row_get df r Plan_name)
                   (row_get df r Org_type) of
              Inr p \<Rightarrow> PyStr p
            | Inl e \<Rightarrow> PyNaN))\<rparr>"
    have "?r1 \<in> set (rows df1)" using that(1) by (subst d1(1)) auto
    moreover have "Organization \<notin> set (columns df1)" using that(2) by (simp add: c1)
    ultimately obtain p where "get_parent_org (row_get df1 ?r1 Contract_number) (PyStr []) = Inr p"
      using d2(2) by blast
    then show ?thesis using that(2) by (simp add: derived_row_def g1)
  qed
qed

lemma derived_row_simps:
  "enrollment (derived_row df r) = enrollment r"
  "cell (derived_row df r) State = cell r State"
  "cell (derived_row df r) County = cell r County"
  "cell (derived_row df r) Contract_number = cell r Contract_number"
  "cell (derived_row df r) Organization = cell r Organization"
  "cell (derived_row df r) Fips = (if Fips \<in> set (columns df) then cell r Fips else PyStr [])"
  "Organization \<in> set (columns df) \<Longrightarrow> cell (derived_row df r) Parent_org = cell r Organization"
  by (simp_all add: derived_row_def)

section \<open>Sums over groups\<close>

lemma sint_sum_list:
  fixes ws :: "64 word list"
  assumes "(\<Sum>w\<leftarrow>ws. \<bar>sint w\<bar>) < 2 ^ 63"
  shows "sint (sum_list ws) = (\<Sum>w\<leftarrow>ws. sint w)"
  using assms
proof (induction ws)
  case Nil
  then show ?case by simp
next
  case (Cons w ws)
  have nn: "0 \<le> \<bar>sint w\<bar>" by simp
  have nn2: "0 \<le> (\<Sum>w\<leftarrow>ws. \<bar>sint w\<bar>)" by (rule sum_list_nonneg) auto
  from Cons.prems nn have "(\<Sum>w\<leftarrow>ws. \<bar>sint w\<bar>) < 2 ^ 63" by simp
  from Cons.IH [OF this] have ih: "sint (sum_list ws) = (\<Sum>w\<leftarrow>ws. sint w)" .
  have "\<bar>\<Sum>w\<leftarrow>ws. sint w\<bar> \<le> (\<Sum>w\<leftarrow>ws. \<bar>sint w\<bar>)"
    using sum_list_abs [of "map sint ws"] by (simp add: comp_def)
  with Cons.prems have b: "\<bar>sint w + (\<Sum>w\<leftarrow>ws. sint w)\<bar> < 2 ^ 63" by simp
  have "sint (w + sum_list ws) = signed_take_bit 63 (sint w + sint (sum_list ws))"
    by (simp add: sint_word_add)
  also have "\<dots> = sint w + (\<Sum>w\<leftarrow>ws. sint w)"
    unfolding ih using b by (intro signed_take_bit_int_eq_self) auto
  finally show ?case by simp
qed

lemma sum_list_abs_filter_le:
  fixes f :: "'a \<Rightarrow> int"
  shows "(\<Sum>x\<leftarrow>filter P xs. \<bar>f x\<bar>) \<le> (\<Sum>x\<leftarrow>xs. \<bar>f x\<bar>)"
  by (induction xs) auto

lemma no_overflow_filter: "no_overflow rs \<Longrightarrow> no_overflow (filter P rs)"
  unfolding no_overflow_def
  using sum_list_abs_filter_le [of "\<lambda>r. sint (enrollment r)" P rs] by linarith

lemma enrollment_sum_exact: "no_overflow rs \<Longrightarrow> enrollment_sum rs = exact_sum rs"
  unfolding no_overflow_def enrollment_sum_def exact_sum_def
  using sint_sum_list [of "map enrollment rs"] by (simp add: comp_def)

lemma sum_list_delta:
  fixes v :: int
  shows "distinct ks \<Longrightarrow> (\<Sum>k\<leftarrow>ks. if a = k then v else 0) = (if a \<in> set ks then v else 0)"
  by (induction ks) auto

lemma sum_list_groups:
  fixes f :: "'a \<Rightarrow> int"
  assumes "distinct ks"
  shows "(\<Sum>k\<leftarrow>ks. \<Sum>x\<leftarrow>filter (\<lambda>x. key x = k) xs. f x) =
         (\<Sum>x\<leftarrow>filter (\<lambda>x. key x \<in> set ks) xs. f x)"
proof (induction xs)
  case Nil
  then show ?case by simp
next
  case (Cons x xs)
  have "(\<Sum>k\<leftarrow>ks. \<Sum>y\<leftarrow>filter (\<lambda>y. key y = k) (x # xs). f y) =
        (\<Sum>k\<leftarrow>ks. (if key x = k then f x else 0) + (\<Sum>y\<leftarrow>filter (\<lambda>y. key y = k) xs. f y))"
    by (intro arg_cong [where f = sum_list] map_cong refl) simp
  also have "\<dots> = (\<Sum>k\<leftarrow>ks. if key x = k then f x else 0) +
        (\<Sum>k\<leftarrow>ks. \<Sum>y\<leftarrow>filter (\<lambda>y. key y = k) xs. f y)"
    by (rule sum_list_addf)
  also have "\<dots> = (if key x \<in> set ks then f x else 0) +
        (\<Sum>y\<leftarrow>filter (\<lambda>y. key y \<in> set ks) xs. f y)"
    by (simp only: sum_list_delta [OF assms] Cons.IH)
  also have "\<dots> = (\<Sum>y\<leftarrow>filter (\<lambda>y. key y \<in> set ks) (x # xs). f y)"
    by simp
  finally show ?case .
qed

lemma strs_simps:
  "strs [] = []"
  "strs (PyStr s # vs) = s # strs vs"
  "strs (PyNaN # vs) = strs vs"
  "strs (PyNone # vs) = strs vs"
  by (simp_all add: strs_def)

lemma set_strs: "set (strs vs) = {s. PyStr s \<in> set vs}"
proof (induction vs)
  case Nil
  then show ?case by (simp add: strs_simps)
next
  case (Cons v vs)
  then show ?case by (cases v) (auto simp: strs_simps)
qed

lemma set_group_keys: "set (group_keys c rs) = {s. \<exists>r\<in>set rs. cell r c = PyStr s}"
  by (auto simp: group_keys_def set_strs intro: rev_image_eqI)

lemma distinct_group_keys: "distinct (group_keys c rs)"
  by (simp add: group_keys_def)

lemma isna_iff: "\<not> isna v \<longleftrightarrow> (\<exists>s. v = PyStr s)"
  by (cases v) simp_all

lemma groupby_sum_total:
  assumes "no_overflow rs"
  shows "sum_list (map snd (groupby_sum c rs)) = exact_sum (filter (\<lambda>r. \<not> isna (cell r c)) rs)"
proof -
  let ?ks = "map PyStr (group_keys c rs)"
  have d: "distinct ?ks" by (simp add: distinct_map distinct_group_keys inj_on_def)
  have "sum_list (map snd (groupby_sum c rs)) =
        (\<Sum>k\<leftarrow>group_keys c rs. exact_sum (filter (\<lambda>r. cell r c = PyStr k) rs))"
    unfolding groupby_sum_def group_rows_def
    by (simp add: comp_def enrollment_sum_exact [OF no_overflow_filter [OF assms]])
  also have "\<dots> = (\<Sum>k\<leftarrow>?ks. \<Sum>r\<leftarrow>filter (\<lambda>r. cell r c = k) rs. sint (enrollment r))"
    by (simp add: comp_def exact_sum_def)
  also have "\<dots> = (\<Sum>r\<leftarrow>filter (\<lambda>r. cell r c \<in> set ?ks) rs. sint (enrollment r))"
    by (rule sum_list_groups [OF d])
  also have "filter (\<lambda>r. cell r c \<in> set ?ks) rs = filter (\<lambda>r. \<not> isna (cell r c)) rs"
    by (rule filter_cong [OF refl]) (auto simp: set_group_keys isna_iff)
  finally show ?thesis by (simp add: exact_sum_def)
qed

lemma filter_all: "(\<And>x. x \<in> set xs \<Longrightarrow> P x) \<Longrightarrow> filter P xs = xs"
  by (simp add: filter_id_conv)

lemma set_map_filter_Some: "set (List.map_filter g xs) = {y. \<exists>x\<in>set xs. g x = Some y}"
  by (induction xs) (auto split: option.splits)

lemma set_county_group_keys:
  "set (county_group_keys rs) =
     {k. \<exists>r\<in>set rs. cell r State = PyStr (fst k) \<and> cell r County = PyStr (snd k)}"
proof -
  let ?g = "\<lambda>r. case (cell r State, cell r County) of
               (PyStr s, PyStr c) \<Rightarrow> Some (s, c)
             | _ \<Rightarrow> None"
  have g: "?g r = Some k \<longleftrightarrow> cell r State = PyStr (fst k) \<and> cell r County = PyStr (snd k)"
    for r :: row and k
    by (cases k) (auto split: pyval.splits)
  have "set (county_group_keys rs) = {k. \<exists>r\<in>set rs. ?g r = Some k}"
    unfolding county_group_keys_def by (simp only: set_sort set_remdups set_map_filter_Some)
  also have "\<dots> = {k. \<exists>r\<in>set rs. cell r State = PyStr (fst k) \<and> cell r County = PyStr (snd k)}"
    by (simp only: g)
  finally show ?thesis .
qed

lemma distinct_county_group_keys: "distinct (county_group_keys rs)"
  by (simp add: county_group_keys_def)

lemma cd_total_county_entry: "cd_total (snd (county_entry st cty key grp)) = enrollment_sum grp"
  by (simp add: county_entry_def Let_def)

lemma fst_county_entry: "fst (county_entry st cty key grp) = choose_fips grp key"
  by (simp add: county_entry_def Let_def)

lemma county_totals_sum:
  assumes "no_overflow (rows df)"
  shows "(\<Sum>kc\<leftarrow>county_loop df. cd_total (snd kc)) =
         exact_sum (filter (\<lambda>r. \<not> isna (cell r State) \<and>
                         (County \<in> set (columns df) \<longrightarrow> \<not> isna (cell r County))) (rows df))"
proof (cases "County \<in> set (columns df)")
  case True
  let ?rs = "rows df"
  let ?key = "\<lambda>r. (cell r State, cell r County)"
  let ?ks = "map (\<lambda>k. (PyStr (fst k), PyStr (snd k))) (county_group_keys ?rs)"
  have d: "distinct ?ks"
    by (auto simp: distinct_map distinct_county_group_keys inj_on_def prod_eq_iff)
  have "(\<Sum>kc\<leftarrow>county_loop df. cd_total (snd kc)) =
        (\<Sum>k\<leftarrow>county_group_keys ?rs. exact_sum (county_group_rows k ?rs))"
    using True unfolding county_loop_def county_group_rows_def
    by (simp add: comp_def cd_total_county_entry enrollment_sum_exact [OF no_overflow_filter [OF assms]])
  also have "\<dots> = (\<Sum>k\<leftarrow>?ks. \<Sum>r\<leftarrow>filter (\<lambda>r. ?key r = k) ?rs. sint (enrollment r))"
    by (simp add: comp_def exact_sum_def county_group_rows_def)
  also have "\<dots> = (\<Sum>r\<leftarrow>filter (\<lambda>r. ?key r \<in> set ?ks) ?rs. sint (enrollment r))"
    by (rule sum_list_groups [OF d])
  also have "filter (\<lambda>r. ?key r \<in> set ?ks) ?rs =
      filter (\<lambda>r. \<not> isna (cell r State) \<and> \<not> isna (cell r County)) ?rs"
  proof (rule filter_cong [OF refl])
    fix r assume r: "r \<in> set ?rs"
    show "(?key r \<in> set ?ks) = (\<not> isna (cell r State) \<and> \<not> isna (cell r County))"
    proof
      assume "?key r \<in> set ?ks"
      then show "\<not> isna (cell r State) \<and> \<not> isna (cell r County)"
        by (auto simp: isna_iff)
    next
      assume "\<not> isna (cell r State) \<and> \<not> isna (cell r County)"
      then obtain s c where sc: "cell r State = PyStr s" "cell r County = PyStr c"
        by (auto simp: isna_iff)
      with r have "(s, c) \<in> set (county_group_keys ?rs)"
        unfolding set_county_group_keys by auto
      then show "?key r \<in> set ?ks" using sc by force
    qed
  qed
  finally show ?thesis using True by (simp add: exact_sum_def)
next
  case False
  have "(\<Sum>kc\<leftarrow>county_loop df. cd_total (snd kc)) =
        sum_list (map snd (groupby_sum State (rows df)))"
    using False unfolding county_loop_def groupby_sum_def
    by (simp add: comp_def cd_total_county_entry)
  with False groupby_sum_total [OF assms, of State] show ?thesis by simp
qed

lemma sequence_map_Inl:
  "xs \<noteq> [] \<Longrightarrow> (\<And>x. x \<in> set xs \<Longrightarrow> f x = Inl e) \<Longrightarrow> sequence (map f xs) = Inl e"
  by (cases xs) simp_all

text \<open>
  The loop over the county groups raises on a grouping by the state alone whose keys are
  1-tuples, unless there is no group; in every other case it stores the entries.
\<close>

lemma county_entries_eq:
  "county_entries lib df =
     (if County \<notin> set (columns df) \<and> tuple_keys lib \<and> group_keys State (rows df) \<noteq> []
      then Inl ValueError_unpack else Inr (county_loop df))"
proof (cases "County \<in> set (columns df)")
  case True
  have "sequence (map (\<lambda>kg. county_step (fst kg) (snd kg))
          (map (\<lambda>k. (Tuple [fst k, snd k], county_group_rows k (rows df)))
             (county_group_keys (rows df)))) =
        Inr (map (\<lambda>k. county_entry (fst k) (snd k) (county_slug (fst k) (snd k))
                        (county_group_rows k (rows df))) (county_group_keys (rows df)))"
    unfolding map_map by (rule sequence_map_Inr) (simp add: county_step_def)
  with True show ?thesis by (simp add: county_entries_def county_group_def county_loop_def)
next
  case False
  show ?thesis
  proof (cases "tuple_keys lib")
    case t: True
    show ?thesis
    proof (cases "group_keys State (rows df) = []")
      case True
      with False t show ?thesis
        by (simp add: county_entries_def county_group_def county_loop_def)
    next
      case ne: False
      have "sequence (map (\<lambda>kg. county_step (fst kg) (snd kg))
              (map (\<lambda>s. (Tuple [s], group_rows State s (rows df)))
                 (group_keys State (rows df)))) = Inl ValueError_unpack"
        unfolding map_map by (rule sequence_map_Inl [OF ne]) (simp add: county_step_def)
      with False t ne show ?thesis by (simp add: county_entries_def county_group_def)
    qed
  next
    case b: False
    have "sequence (map (\<lambda>kg. county_step (fst kg) (snd kg))
            (map (\<lambda>s. (Bare s, group_rows State s (rows df))) (group_keys State (rows df)))) =
          Inr (map (\<lambda>s. county_entry s ''Unknown'' (s @ ''_unknown'')
                          (group_rows State s (rows df))) (group_keys State (rows df)))"
      unfolding map_map by (rule sequence_map_Inr) (simp add: county_step_def)
    with False b show ?thesis by (simp add: county_entries_def county_group_def county_loop_def)
  qed
qed

lemma county_entries_Inr: "county_entries lib df = Inr es \<Longrightarrow> es = county_loop df"
  by (simp add: county_entries_eq split: if_splits)

lemma aggregate_Inr:
  assumes "aggregate lib df = Inr snap"
  shows "snap = snapshot_of lib df" and "county_entries lib df = Inr (county_loop df)"
proof -
  from assms obtain es where e: "county_entries lib df = Inr es"
    by (auto simp: aggregate_def split: sum.splits)
  from county_entries_Inr [OF e] e show c: "county_entries lib df = Inr (county_loop df)"
    by simp
  with assms show "snap = snapshot_of lib df"
    by (auto simp: aggregate_def snapshot_of_def)
qed

lemma county_loop_cong:
  "set (columns a) = set (columns b) \<Longrightarrow> rows a = rows b \<Longrightarrow> county_loop a = county_loop b"
  by (simp add: county_loop_def)

lemma county_entries_cong:
  "set (columns a) = set (columns b) \<Longrightarrow> rows a = rows b \<Longrightarrow>
   county_entries lib a = county_entries lib b"
  by (simp add: county_entries_eq county_loop_cong [of a b])

lemma snapshot_of_cong:
  "set (columns a) = set (columns b) \<Longrightarrow> rows a = rows b \<Longrightarrow> snapshot_of lib a = snapshot_of lib b"
  by (simp add: snapshot_of_def county_loop_cong [of a b] contract_entry_def cong: map_cong)

lemma aggregate_enrollment_derived:
  assumes "aggregate_enrollment lib df = Inr snap"
  shows "snap = snapshot_of lib (derived_frame df)"
    and "\<And>r. r \<in> set (rows df) \<Longrightarrow> \<exists>p. cell (derived_row df r) Plan_type = PyStr p"
    and "\<And>r. r \<in> set (rows df) \<Longrightarrow> Organization \<notin> set (columns df) \<Longrightarrow>
           \<exists>p. cell (derived_row df r) Parent_org = PyStr p"
    and "county_entries lib (derived_frame df) = Inr (county_loop (derived_frame df))"
    and "rows df \<noteq> []"
proof -
  from assms obtain df' where d: "add_derived_columns df = Inr df'"
    and s: "aggregate lib df' = Inr snap"
    by (auto simp: aggregate_enrollment_def split: sum.splits)
  note r = add_derived_columns_rows [OF d]
  have c: "set (columns df') = set (columns (derived_frame df))"
    "rows df' = rows (derived_frame df)"
    by (auto simp: r(1,2) derived_frame_def)
  from aggregate_Inr(1) [OF s] snapshot_of_cong [OF c, of lib]
  show "snap = snapshot_of lib (derived_frame df)" by simp
  from aggregate_Inr(2) [OF s] county_entries_cong [OF c, of lib] county_loop_cong [OF c]
  show "county_entries lib (derived_frame df) = Inr (county_loop (derived_frame df))" by simp
  show "\<exists>p. cell (derived_row df r) Plan_type = PyStr p" if "r \<in> set (rows df)" for r
    using r(3) that .
  show "\<exists>p. cell (derived_row df r) Parent_org = PyStr p"
    if "r \<in> set (rows df)" "Organization \<notin> set (columns df)" for r
    using r(4) that .
  show "rows df \<noteq> []" by (rule r(5))
qed

lemma county_keys_loop:
  "aggregate_enrollment lib df = Inr snap \<Longrightarrow>
   county_keys lib df = map fst (county_loop (derived_frame df))"
  by (simp add: county_keys_def aggregate_enrollment_derived(4))

lemma exact_sum_derived: "exact_sum (map (derived_row df) rs) = exact_sum rs"
  by (simp add: exact_sum_def comp_def derived_row_simps)

lemma no_overflow_derived: "no_overflow (map (derived_row df) rs) = no_overflow rs"
  by (simp add: no_overflow_def comp_def derived_row_simps)

lemma rows_derived_frame: "rows (derived_frame df) = map (derived_row df) (rows df)"
  by (simp add: derived_frame_def)

lemma County_derived_frame: "County \<in> set (columns (derived_frame df)) \<longleftrightarrow> County \<in> set (columns df)"
  by (simp add: derived_frame_def)

lemma filter_derived:
  "(\<And>r. P (derived_row df r) = Q r) \<Longrightarrow>
   filter P (map (derived_row df) rs) = map (derived_row df) (filter Q rs)"
  by (simp add: filter_map comp_def)

section \<open>The rollups add up to the total\<close>

text \<open>
  Claim C1, amended. When \<^verbatim>\<open>aggregate_enrollment\<close> produces a snapshot and the enrollments
  do not overflow 64 bits, the total enrollment is the sum of the enrollments of the
  table and the by_plan_type values add up to it. The by_state values add up to it when
  no record lacks its state, the by_org values when no record lacks its organization, and
  the county totals when no record lacks its state or county and no two county groups
  resolve to the same key: grouping leaves out the records with a missing key, and a later
  group replaces an earlier one under the same key.
\<close>

theorem aggregate_enrollment_sums:
  assumes "aggregate_enrollment lib df = Inr snap" and "no_overflow (rows df)"
  shows "total_enrollment (metadata snap) = exact_sum (rows df) \<and>
     sum_list (map snd (by_plan_type snap)) = total_enrollment (metadata snap) \<and>
     ((\<forall>r\<in>set (rows df). \<not> isna (cell r State)) \<longrightarrow>
        sum_list (map snd (by_state snap)) = total_enrollment (metadata snap)) \<and>
     ((Organization \<in> set (columns df) \<longrightarrow> (\<forall>r\<in>set (rows df). \<not> isna (cell r Organization))) \<longrightarrow>
        sum_list (map snd (by_org snap)) = total_enrollment (metadata snap)) \<and>
     ((\<forall>r\<in>set (rows df). \<not> isna (cell r State) \<and>
           (County \<in> set (columns df) \<longrightarrow> \<not> isna (cell r County))) \<and>
       distinct (county_keys lib df) \<longrightarrow>
        (\<Sum>kc\<leftarrow>counties snap. cd_total (snd kc)) = total_enrollment (metadata snap))"
proof -
  note d = aggregate_enrollment_derived [OF assms(1)]
  let ?rs = "map (derived_row df) (rows df)"
  let ?a = "snapshot_of lib (derived_frame df)"
  have no: "no_overflow ?rs" using assms(2) by (simp add: no_overflow_derived)
  have tot: "total_enrollment (metadata ?a) = exact_sum (rows df)"
    by (simp add: snapshot_of_def rows_derived_frame enrollment_sum_exact [OF no] exact_sum_derived)
  have sums: "sum_list (map snd (groupby_sum c ?rs)) = exact_sum (rows df)"
    if "\<And>r. r \<in> set (rows df) \<Longrightarrow> \<not> isna (cell (derived_row df r) c)" for c
  proof -
    have "filter (\<lambda>r. \<not> isna (cell r c)) ?rs = ?rs"
      using that by (intro filter_all) auto
    with groupby_sum_total [OF no, of c] show ?thesis by (simp add: exact_sum_derived)
  qed
  have "\<And>r. r \<in> set (rows df) \<Longrightarrow> \<not> isna (cell (derived_row df r) Plan_type)"
    using d(2) by (auto simp: isna_iff)
  from sums [of Plan_type, OF this]
  have pt: "sum_list (map snd (by_plan_type ?a)) = total_enrollment (metadata ?a)"
    unfolding tot by (simp add: snapshot_of_def rows_derived_frame)
  have st: "sum_list (map snd (by_state ?a)) = total_enrollment (metadata ?a)"
    if "\<forall>r\<in>set (rows df). \<not> isna (cell r State)"
  proof -
    have "\<And>r. r \<in> set (rows df) \<Longrightarrow> \<not> isna (cell (derived_row df r) State)"
      using that by (simp add: derived_row_simps)
    from sums [of State, OF this] show ?thesis
      unfolding tot by (simp add: snapshot_of_def rows_derived_frame)
  qed
  have org: "sum_list (map snd (by_org ?a)) = total_enrollment (metadata ?a)"
    if h: "Organization \<in> set (columns df) \<longrightarrow> (\<forall>r\<in>set (rows df). \<not> isna (cell r Organization))"
  proof -
    have "\<not> isna (cell (derived_row df r) Parent_org)" if "r \<in> set (rows df)" for r
    proof (cases "Organization \<in> set (columns df)")
      case True
      with h that show ?thesis by (simp add: derived_row_simps)
    next
      case False
      from d(3) [OF that False] show ?thesis by (auto simp: isna_iff)
    qed
    from sums [of Parent_org, OF this] show ?thesis
      unfolding tot by (simp add: snapshot_of_def rows_derived_frame)
  qed
  have cty: "(\<Sum>kc\<leftarrow>counties ?a. cd_total (snd kc)) = total_enrollment (metadata ?a)"
    if h: "\<forall>r\<in>set (rows df). \<not> isna (cell r State) \<and>
           (County \<in> set (columns df) \<longrightarrow> \<not> isna (cell r County))"
      and k: "distinct (county_keys lib df)"
  proof -
    have c: "counties ?a = county_loop (derived_frame df)"
      using k unfolding county_keys_loop [OF assms(1)]
      by (simp add: snapshot_of_def dict_of_items_distinct)
    have "filter (\<lambda>r. \<not> isna (cell r State) \<and>
              (County \<in> set (columns (derived_frame df)) \<longrightarrow> \<not> isna (cell r County))) ?rs = ?rs"
      using h by (intro filter_all) (auto simp: derived_row_simps County_derived_frame)
    with county_totals_sum [of "derived_frame df"] no show ?thesis
      unfolding c tot by (simp add: rows_derived_frame exact_sum_derived)
  qed
  from tot pt st org cty show ?thesis unfolding d(1) by blast
qed

theorem aggregate_enrollment_sums_witness:
  "aggregate_enrollment bare_keys_lib two_county_table =
     Inr \<lparr>metadata = \<lparr>record_count = 2, total_enrollment = 150\<rparr>,
          counties =
            [(''ca_los_angeles'',
              \<lparr>cd_state = ''CA'', cd_county = ''Los Angeles'', cd_fips = ''ca_los_angeles'',
               cd_total = 150, cd_by_org = [(''Humana'', 150)],
               cd_by_plan_type = [(''HMO'', 150)], cd_contracts = [(''H0028'', 150)]\<rparr>),
             (''ny_kings'',
              \<lparr>cd_state = ''NY'', cd_county = ''Kings'', cd_fips = ''ny_kings'',
               cd_total = 0, cd_by_org = [(''Other'', 0)],
               cd_by_plan_type = [(''HMO'', 0)], cd_contracts = [(''H9999'', 0)]\<rparr>)],
          by_org = [(''Humana'', 150), (''Other'', 0)],
          by_plan_type = [(''HMO'', 150)],
          by_state = [(''CA'', 150), (''NY'', 0)],
          contracts =
            [(''H0028'', \<lparr>ci_enrollment = 150, ci_parent_org = PyStr ''Humana'',
                ci_organization = PyStr ''Humana'', ci_plan_type = ''HMO''\<rparr>),
             (''H9999'', \<lparr>ci_enrollment = 0, ci_parent_org = PyStr ''Other'',
                ci_organization = PyStr ''Other'', ci_plan_type = ''HMO''\<rparr>)]\<rparr> \<and>
   no_overflow (rows two_county_table) \<and>
   list_all (\<lambda>r. \<not> isna (cell r State) \<and> \<not> isna (cell r County) \<and> \<not> isna (cell r Organization))
     (rows two_county_table) \<and>
   distinct (county_keys bare_keys_lib two_county_table) \<and>
   exact_sum (rows two_county_table) = 150 \<and>
   sum_list (map snd [(''CA'', 150), (''NY'', 0::int)]) = exact_sum (rows two_county_table) \<and>
   sum_list (map snd [(''Humana'', 150), (''Other'', 0::int)]) = exact_sum (rows two_county_table) \<and>
   sum_list (map snd [(''HMO'', 150::int)]) = exact_sum (rows two_county_table)"
proof -
  let ?snap = "\<lparr>metadata = \<lparr>record_count = 2, total_enrollment = 150\<rparr>,
          counties =
            [(''ca_los_angeles'',
              \<lparr>cd_state = ''CA'', cd_county = ''Los Angeles'', cd_fips = ''ca_los_angeles'',
               cd_total = 150, cd_by_org = [(''Humana'', 150)],
               cd_by_plan_type = [(''HMO'', 150)], cd_contracts = [(''H0028'', 150)]\<rparr>),
             (''ny_kings'',
              \<lparr>cd_state = ''NY'', cd_county = ''Kings'', cd_fips = ''ny_kings'',
               cd_total = 0, cd_by_org = [(''Other'', 0)],
               cd_by_plan_type = [(''HMO'', 0)], cd_contracts = [(''H9999'', 0)]\<rparr>)],
          by_org = [(''Humana'', 150), (''Other'', 0)],
          by_plan_type = [(''HMO'', 150)],
          by_state = [(''CA'', 150), (''NY'', 0)],
          contracts =
            [(''H0028'', \<lparr>ci_enrollment = 150, ci_parent_org = PyStr ''Humana'',
                ci_organization = PyStr ''Humana'', ci_plan_type = ''HMO''\<rparr>),
             (''H9999'', \<lparr>ci_enrollment = 0, ci_parent_org = PyStr ''Other'',
                ci_organization = PyStr ''Other'', ci_plan_type = ''HMO''\<rparr>)]\<rparr>"
  have a: "aggregate_enrollment bare_keys_lib two_county_table = Inr ?snap"
    by code_simp
  have n: "no_overflow (rows two_county_table)"
    by code_simp
  have l: "list_all (\<lambda>r. \<not> isna (cell r State) \<and> \<not> isna (cell r County) \<and> \<not> isna (cell r Organization))
     (rows two_county_table)"
    by (simp add: two_county_table_def mk_row_def)
  have k: "distinct (county_keys bare_keys_lib two_county_table)"
    by code_simp
  from aggregate_enrollment_sums [OF a n] l k
  have "exact_sum (rows two_county_table) = 150 \<and>
   sum_list (map snd [(''CA'', 150), (''NY'', 0::int)]) = exact_sum (rows two_county_table) \<and>
   sum_list (map snd [(''Humana'', 150), (''Other'', 0::int)]) = exact_sum (rows two_county_table) \<and>
   sum_list (map snd [(''HMO'', 150::int)]) = exact_sum (rows two_county_table)"
    by (simp add: list_all_iff)
  with a n l k show ?thesis by blast
qed

text \<open>
  A record without a state: the total is 157, and by_state holds the 150 of California
  only.
\<close>

theorem aggregate_enrollment_sums_counterexample:
  "map_sum id (\<lambda>s. (by_state s, sum_list (map snd (by_state s)), total_enrollment (metadata s)))
     (aggregate_enrollment bare_keys_lib missing_state_table) = Inr ([(''CA'', 150)], 150, 157)"
  by code_simp

section \<open>County keys\<close>

lemma distinct_foldl_update:
  "distinct (map fst d) \<Longrightarrow> distinct (map fst (foldl (\<lambda>d (k, v). AList.update k v d) d kvs))"
proof (induction kvs arbitrary: d)
  case Nil
  then show ?case by simp
next
  case (Cons kv kvs)
  then show ?case by (cases kv) (simp add: distinct_update)
qed

lemma distinct_dict_of_items: "distinct (map fst (dict_of_items kvs))"
  unfolding dict_of_items_def by (rule distinct_foldl_update) simp

lemma keys_foldl_update:
  "fst ` set (foldl (\<lambda>d (k, v). AList.update k v d) d kvs) = fst ` set d \<union> fst ` set kvs"
proof (induction kvs arbitrary: d)
  case Nil
  then show ?case by simp
next
  case (Cons kv kvs)
  then show ?case by (cases kv) (auto simp: dom_update)
qed

lemma keys_dict_of_items: "fst ` set (dict_of_items kvs) = fst ` set kvs"
  unfolding dict_of_items_def using keys_foldl_update [of "[]" kvs] by simp

text \<open>
  Claim C10. The county groups are stored one after the other under their keys, so when
  two groups resolve to the same key the later group replaces the entry of the earlier
  one: the counties of the snapshot have one entry for a key, their keys are the keys of
  the groups, and the entry of a key is the entry of the last group with that key. Where
  Alameda and Alpine share the FIPS code 06001, the one entry left is Alpine's, with 20 of
  the 30 enrolled.
\<close>

theorem counties_last_group_wins:
  assumes "aggregate_enrollment lib df = Inr snap"
  shows "\<exists>entries. county_entries lib (derived_frame df) = Inr entries \<and>
     distinct (map fst (counties snap)) \<and>
     set (map fst (counties snap)) = set (county_keys lib df) \<and>
     map_of (counties snap) k = last_defined entries k"
proof -
  note d = aggregate_enrollment_derived [OF assms]
  have c: "counties snap = dict_of_items (county_loop (derived_frame df))"
    by (simp add: d(1) snapshot_of_def)
  have "distinct (map fst (counties snap)) \<and>
     set (map fst (counties snap)) = set (county_keys lib df) \<and>
     map_of (counties snap) k = last_defined (county_loop (derived_frame df)) k"
    unfolding c county_keys_loop [OF assms]
    by (simp add: distinct_dict_of_items keys_dict_of_items map_of_dict_of_items
        map_of_rev_last_defined)
  with d(4) show ?thesis by blast
qed

theorem counties_last_group_wins_witness:
  "map_sum id (\<lambda>s. (counties s, total_enrollment (metadata s)))
     (aggregate_enrollment tuple_keys_lib fips_collision_table) =
     Inr ([(''06001'', alpine_entry)], 30) \<and>
   map_sum id (map (\<lambda>kc. (fst kc, cd_county (snd kc), cd_total (snd kc))))
     (county_entries tuple_keys_lib (derived_frame fips_collision_table)) =
     Inr [(''06001'', ''Alameda'', 10), (''06001'', ''Alpine'', 20)] \<and>
   (\<exists>entries. county_entries tuple_keys_lib (derived_frame fips_collision_table) = Inr entries \<and>
      last_defined entries ''06001'' = Some alpine_entry)"
proof -
  let ?snap = "\<lparr>metadata = \<lparr>record_count = 2, total_enrollment = 30\<rparr>,
          counties = [(''06001'', alpine_entry)],
          by_org = [(''Humana'', 30)],
          by_plan_type = [(''HMO'', 30)],
          by_state = [(''CA'', 30)],
          contracts =
            [(''H0028'', \<lparr>ci_enrollment = 30, ci_parent_org = PyStr ''Humana'',
                ci_organization = PyStr ''Humana'', ci_plan_type = ''HMO''\<rparr>)]\<rparr>"
  have a: "aggregate_enrollment tuple_keys_lib fips_collision_table = Inr ?snap"
    by code_simp
  have e: "map_sum id (map (\<lambda>kc. (fst kc, cd_county (snd kc), cd_total (snd kc))))
     (county_entries tuple_keys_lib (derived_frame fips_collision_table)) =
     Inr [(''06001'', ''Alameda'', 10), (''06001'', ''Alpine'', 20)]"
    by code_simp
  from counties_last_group_wins [OF a, of "''06001''"] obtain entries where
    "county_entries tuple_keys_lib (derived_frame fips_collision_table) = Inr entries"
    "map_of (counties ?snap) ''06001'' = last_defined entries ''06001''"
    by blast
  then have "\<exists>entries. county_entries tuple_keys_lib (derived_frame fips_collision_table) = Inr entries \<and>
      last_defined entries ''06001'' = Some alpine_entry"
    by (intro exI [of _ entries]) simp
  with a e show ?thesis by simp
qed

lemma foldl_unique_prefix:
  "\<exists>ys. foldl (\<lambda>acc x. if x \<in> set acc then acc else acc @ [x]) acc xs = acc @ ys"
proof (induction xs arbitrary: acc)
  case Nil
  then show ?case by simp
next
  case (Cons x xs)
  show ?case
  proof (cases "x \<in> set acc")
    case True
    with Cons.IH [of acc] show ?thesis by simp
  next
    case False
    from Cons.IH [of "acc @ [x]"] obtain ys
      where "foldl (\<lambda>acc x. if x \<in> set acc then acc else acc @ [x]) (acc @ [x]) xs = (acc @ [x]) @ ys"
      by blast
    with False show ?thesis by simp
  qed
qed

lemma unique_Nil: "unique [] = []"
  by (simp add: unique_def)

lemma unique_Cons: "\<exists>ys. unique (x # xs) = x # ys"
  unfolding unique_def using foldl_unique_prefix [of "[x]" xs] by simp

lemma choose_fips_first:
  "choose_fips grp key =
     (case strs (map (\<lambda>r. cell r Fips) grp) of
        [] \<Rightarrow> key
      | v # vs \<Rightarrow> if v \<noteq> [] then v else key)"
proof (cases "strs (map (\<lambda>r. cell r Fips) grp)")
  case Nil
  then show ?thesis by (simp add: choose_fips_def unique_Nil)
next
  case (Cons v vs)
  from unique_Cons [of v vs] obtain ys where "unique (v # vs) = v # ys" ..
  with Cons show ?thesis by (simp add: choose_fips_def)
qed

lemma map_filter_map: "List.map_filter g (map f xs) = List.map_filter (g \<circ> f) xs"
  by (induction xs) (auto split: option.splits)

lemma county_group_keys_derived:
  "county_group_keys (map (derived_row df) rs) = county_group_keys rs"
  unfolding county_group_keys_def map_filter_map comp_def derived_row_simps ..

lemma group_keys_derived:
  "group_keys State (map (derived_row df) rs) = group_keys State rs"
  by (simp add: group_keys_def comp_def derived_row_simps)

lemma county_group_rows_derived:
  "county_group_rows k (map (derived_row df) rs) = map (derived_row df) (county_group_rows k rs)"
  by (simp add: county_group_rows_def filter_map comp_def derived_row_simps)

lemma group_rows_State_derived:
  "group_rows State s (map (derived_row df) rs) = map (derived_row df) (group_rows State s rs)"
  by (simp add: group_rows_def filter_map comp_def derived_row_simps)

lemma strs_no_empty:
  "(\<And>v. v \<in> set vs \<Longrightarrow> v \<noteq> PyStr []) \<Longrightarrow> filter (\<lambda>v. v \<noteq> []) (strs vs) = strs vs"
  by (intro filter_all) (auto simp: set_strs)

lemma strs_all_empty: "strs (map (\<lambda>r. PyStr []) grp) = replicate (length grp) []"
  by (induction grp) (simp_all add: strs_simps)

lemma choose_fips_expected:
  assumes "Fips \<in> set (columns df) \<longrightarrow> (\<forall>r\<in>set grp. cell r Fips \<noteq> PyStr [])"
  shows "choose_fips (map (derived_row df) grp) key = expected_county_key df grp key"
proof (cases "Fips \<in> set (columns df)")
  case True
  with assms have "filter (\<lambda>v. v \<noteq> []) (strs (map (\<lambda>r. cell r Fips) grp)) =
      strs (map (\<lambda>r. cell r Fips) grp)"
    by (intro strs_no_empty) auto
  moreover from True assms have "\<And>v. v \<in> set (strs (map (\<lambda>r. cell r Fips) grp)) \<Longrightarrow> v \<noteq> []"
    by (auto simp: set_strs)
  ultimately show ?thesis
    using True
    by (auto simp: choose_fips_first expected_county_key_def fips_values_def comp_def
        derived_row_simps split: list.splits)
next
  case False
  then show ?thesis
    by (cases grp)
       (simp_all add: choose_fips_first expected_county_key_def fips_values_def comp_def
          derived_row_simps strs_simps)
qed

lemma lower_idem: "py_lower_char (py_lower_char c) = py_lower_char c"
proof -
  have "of_char (char_of (of_char c + 32 :: nat)) = (of_char c + 32 :: nat)"
    if "(of_char c :: nat) \<le> 222"
    using that by simp
  then show ?thesis
    unfolding py_lower_char_def Let_def by auto
qed

lemma lower_underscore: "py_lower_char (CHR ''_'') = CHR ''_''"
  by (simp add: py_lower_char_def)

lemma county_slug_slug_of: "county_slug st cty = slug_of st cty"
  by (simp add: county_slug_def slug_of_def lower_def replace_char_def lower_underscore)

lemma county_loop_keys_expected:
  assumes "Fips \<in> set (columns df) \<longrightarrow> (\<forall>r\<in>set (rows df). cell r Fips \<noteq> PyStr [])"
  shows "map fst (county_loop (derived_frame df)) = expected_county_keys df"
proof -
  have g1: "choose_fips (map (derived_row df) (county_group_rows k (rows df))) key =
      expected_county_key df (county_group_rows k (rows df)) key" for k key
    using assms by (intro choose_fips_expected) (auto simp: county_group_rows_def)
  have g2: "choose_fips (map (derived_row df) (group_rows State s (rows df))) key =
      expected_county_key df (group_rows State s (rows df)) key" for s key
    using assms by (intro choose_fips_expected) (auto simp: group_rows_def)
  show ?thesis
    unfolding county_loop_def expected_county_keys_def
    by (simp add: County_derived_frame rows_derived_frame county_group_keys_derived
        group_keys_derived county_group_rows_derived group_rows_State_derived
        fst_county_entry comp_def g1 g2 county_slug_slug_of)
qed

lemma group_keys_empty: "group_keys c rs = [] \<longleftrightarrow> \<not> list_ex (\<lambda>r. \<not> isna (cell r c)) rs"
proof -
  have "group_keys c rs = [] \<longleftrightarrow> set (group_keys c rs) = {}" by simp
  also have "\<dots> \<longleftrightarrow> \<not> list_ex (\<lambda>r. \<not> isna (cell r c)) rs"
    unfolding set_group_keys list_ex_iff by (auto simp: isna_iff)
  finally show ?thesis .
qed

text \<open>
  The aggregation of a table whose derived columns are computed: it raises in the loop
  over the county groups when the table has no county column, the keys of a grouping on
  one column are 1-tuples and some record has a state, and it returns the snapshot
  otherwise.
\<close>

lemma aggregate_enrollment_eq:
  assumes "add_derived_columns df = Inr df'"
  shows "aggregate_enrollment lib df =
     (if County \<notin> set (columns df) \<and> tuple_keys lib \<and>
         list_ex (\<lambda>r. \<not> isna (cell r State)) (rows df)
      then Inl ValueError_unpack else Inr (snapshot_of lib (derived_frame df)))"
proof -
  note r = add_derived_columns_rows [OF assms]
  have c: "set (columns df') = set (columns (derived_frame df))"
    "rows df' = rows (derived_frame df)"
    by (auto simp: r(1,2) derived_frame_def)
  have e: "county_entries lib df' =
     (if County \<notin> set (columns df) \<and> tuple_keys lib \<and>
         list_ex (\<lambda>r. \<not> isna (cell r State)) (rows df)
      then Inl ValueError_unpack else Inr (county_loop (derived_frame df)))"
    unfolding county_entries_cong [OF c, of lib]
    by (simp add: county_entries_eq [of lib "derived_frame df"] County_derived_frame
        rows_derived_frame group_keys_derived group_keys_empty)
  have "aggregate_enrollment lib df = aggregate lib df'"
    by (simp add: aggregate_enrollment_def assms)
  also have "\<dots> =
     (if County \<notin> set (columns df) \<and> tuple_keys lib \<and>
         list_ex (\<lambda>r. \<not> isna (cell r State)) (rows df)
      then Inl ValueError_unpack else Inr (snapshot_of lib df'))"
    unfolding aggregate_def e
    by (simp add: snapshot_of_def county_loop_cong [OF c])
  finally show ?thesis by (simp add: snapshot_of_cong [OF c, of lib])
qed

text \<open>
  Claim C9. Let no FIPS cell of the table be the empty string, as in a table read from a
  file. When \<^verbatim>\<open>aggregate_enrollment\<close> produces a snapshot, the key of a county group is
  the first FIPS value of the group in the order of the records, when the group has one,
  and otherwise the slug of state and county (the state, an underscore and the county,
  lower-cased, every space replaced by an underscore), or the state followed by
  \<^verbatim>\<open>_unknown\<close> when the table has no county column; the keys of the counties of the
  snapshot are these keys. A snapshot is produced whenever the derived columns are
  computed and the table has a county column or the library hands the loop the bare key
  of a grouping on one column. Where the table has no county column, the library hands
  the loop a 1-tuple and some record has a state, the loop raises \<^verbatim>\<open>ValueError\<close> at
  \<^verbatim>\<open>state, county = keys\<close> and no key \<^verbatim>\<open>state_unknown\<close> is ever stored.
\<close>

theorem county_key_fips_or_slug:
  assumes "Fips \<in> set (columns df) \<longrightarrow> (\<forall>r\<in>set (rows df). cell r Fips \<noteq> PyStr [])"
  shows "(aggregate_enrollment lib df = Inr snap \<longrightarrow>
       county_keys lib df = expected_county_keys df \<and>
       set (map fst (counties snap)) = set (expected_county_keys df)) \<and>
     (\<not> isl (add_derived_columns df) \<and> (County \<in> set (columns df) \<or> \<not> tuple_keys lib) \<longrightarrow>
       (\<exists>s. aggregate_enrollment lib df = Inr s)) \<and>
     (\<not> isl (add_derived_columns df) \<and> County \<notin> set (columns df) \<and> tuple_keys lib \<and>
      list_ex (\<lambda>r. \<not> isna (cell r State)) (rows df) \<longrightarrow>
       aggregate_enrollment lib df = Inl ValueError_unpack)"
proof (intro conjI impI)
  assume a: "aggregate_enrollment lib df = Inr snap"
  from aggregate_enrollment_derived(1) [OF a]
  have "counties snap = dict_of_items (county_loop (derived_frame df))"
    by (simp add: snapshot_of_def)
  then have k: "set (map fst (counties snap)) = set (map fst (county_loop (derived_frame df)))"
    by (simp add: keys_dict_of_items)
  show "county_keys lib df = expected_county_keys df"
    by (simp add: county_keys_loop [OF a] county_loop_keys_expected [OF assms])
  show "set (map fst (counties snap)) = set (expected_county_keys df)"
    unfolding k by (simp add: county_loop_keys_expected [OF assms])
next
  assume h: "\<not> isl (add_derived_columns df) \<and> (County \<in> set (columns df) \<or> \<not> tuple_keys lib)"
  then obtain df' where "add_derived_columns df = Inr df'"
    by (cases "add_derived_columns df") auto
  from aggregate_enrollment_eq [OF this, of lib] h
  show "\<exists>s. aggregate_enrollment lib df = Inr s" by auto
next
  assume h: "\<not> isl (add_derived_columns df) \<and> County \<notin> set (columns df) \<and> tuple_keys lib \<and>
      list_ex (\<lambda>r. \<not> isna (cell r State)) (rows df)"
  then obtain df' where "add_derived_columns df = Inr df'"
    by (cases "add_derived_columns df") auto
  from aggregate_enrollment_eq [OF this, of lib] h
  show "aggregate_enrollment lib df = Inl ValueError_unpack" by simp
qed

theorem county_key_fips_or_slug_witness:
  "list_all (\<lambda>r. cell r Fips \<noteq> PyStr []) (rows fips_table) \<and>
   \<not> isl (aggregate_enrollment tuple_keys_lib fips_table) \<and>
   county_group_keys (rows fips_table) = [(''CA'', ''Los Angeles''), (''NY'', ''New York'')] \<and>
   map (\<lambda>k. fips_values fips_table (county_group_rows k (rows fips_table)))
     (county_group_keys (rows fips_table)) = [[''06037''], []] \<and>
   county_keys tuple_keys_lib fips_table = [''06037'', ''ny_new_york''] \<and>
   \<not> isl (aggregate_enrollment tuple_keys_lib two_county_table) \<and>
   county_keys tuple_keys_lib two_county_table = [''ca_los_angeles'', ''ny_kings''] \<and>
   \<not> isl (add_derived_columns no_county_table) \<and>
   County \<notin> set (columns no_county_table) \<and>
   list_ex (\<lambda>r. \<not> isna (cell r State)) (rows no_county_table) \<and>
   \<not> tuple_keys bare_keys_lib \<and> tuple_keys tuple_keys_lib \<and>
   \<not> isl (aggregate_enrollment bare_keys_lib no_county_table) \<and>
   county_keys bare_keys_lib no_county_table = [''CA_unknown''] \<and>
   aggregate_enrollment tuple_keys_lib no_county_table = Inl ValueError_unpack"
proof -
  have l: "list_all (\<lambda>r. cell r Fips \<noteq> PyStr []) (rows fips_table)"
    by (simp add: fips_table_def mk_row_def)
  then have h1: "Fips \<in> set (columns fips_table) \<longrightarrow>
      (\<forall>r\<in>set (rows fips_table). cell r Fips \<noteq> PyStr [])"
    by (simp add: list_all_iff)
  have h2: "Fips \<in> set (columns two_county_table) \<longrightarrow>
      (\<forall>r\<in>set (rows two_county_table). cell r Fips \<noteq> PyStr [])"
    by (simp add: two_county_table_def)
  have h3: "Fips \<in> set (columns no_county_table) \<longrightarrow>
      (\<forall>r\<in>set (rows no_county_table). cell r Fips \<noteq> PyStr [])"
    by (simp add: no_county_table_def)
  have d: "\<not> isl (add_derived_columns fips_table)" "\<not> isl (add_derived_columns two_county_table)"
    "\<not> isl (add_derived_columns no_county_table)"
    by code_simp+
  have c: "County \<in> set (columns fips_table)" "County \<in> set (columns two_county_table)"
    "County \<notin> set (columns no_county_table)"
    by (simp_all add: fips_table_def two_county_table_def no_county_table_def)
  have s: "list_ex (\<lambda>r. \<not> isna (cell r State)) (rows no_county_table)"
    by (simp add: no_county_table_def mk_row_def)
  have t: "\<not> tuple_keys bare_keys_lib" "tuple_keys tuple_keys_lib"
    by (simp_all add: bare_keys_lib_def tuple_keys_lib_def)
  have g: "county_group_keys (rows fips_table) = [(''CA'', ''Los Angeles''), (''NY'', ''New York'')]"
    by code_simp
  have f: "map (\<lambda>k. fips_values fips_table (county_group_rows k (rows fips_table)))
     (county_group_keys (rows fips_table)) = [[''06037''], []]"
    by code_simp
  have e: "expected_county_keys fips_table = [''06037'', ''ny_new_york'']"
    "expected_county_keys two_county_table = [''ca_los_angeles'', ''ny_kings'']"
    "expected_county_keys no_county_table = [''CA_unknown'']"
    by code_simp+
  from county_key_fips_or_slug [OF h1, of tuple_keys_lib] d c
  obtain s1 where a1: "aggregate_enrollment tuple_keys_lib fips_table = Inr s1" by blast
  from county_key_fips_or_slug [OF h1, of tuple_keys_lib s1] a1 e
  have k1: "county_keys tuple_keys_lib fips_table = [''06037'', ''ny_new_york'']" by simp
  from county_key_fips_or_slug [OF h2, of tuple_keys_lib] d c
  obtain s2 where a2: "aggregate_enrollment tuple_keys_lib two_county_table = Inr s2" by blast
  from county_key_fips_or_slug [OF h2, of tuple_keys_lib s2] a2 e
  have k2: "county_keys tuple_keys_lib two_county_table = [''ca_los_angeles'', ''ny_kings'']"
    by simp
  from county_key_fips_or_slug [OF h3, of bare_keys_lib] d t
  obtain s3 where a3: "aggregate_enrollment bare_keys_lib no_county_table = Inr s3" by blast
  from county_key_fips_or_slug [OF h3, of bare_keys_lib s3] a3 e
  have k3: "county_keys bare_keys_lib no_county_table = [''CA_unknown'']" by simp
  from county_key_fips_or_slug [OF h3, of tuple_keys_lib] d c s t
  have r: "aggregate_enrollment tuple_keys_lib no_county_table = Inl ValueError_unpack" by blast
  from l a1 g f k1 a2 k2 d(3) c(3) s t a3 k3 r show ?thesis by simp
qed
section \<open>The contract summary\<close>

lemma most_frequent_exists:
  assumes "xs \<noteq> []"
  shows "\<exists>v. most_frequent xs v"
proof -
  let ?C = "count_list xs ` set xs"
  from assms have ne: "?C \<noteq> {}" by simp
  have "Max ?C \<in> ?C" using assms by (intro Max_in) simp_all
  then obtain v where v: "v \<in> set xs" "count_list xs v = Max ?C" by auto
  have "count_list xs w \<le> count_list xs v" if "w \<in> set xs" for w
    unfolding v(2) using that by (intro Max_ge) simp_all
  with v(1) show ?thesis by (auto simp: most_frequent_def list_all_iff)
qed

lemma set_mode: "set (mode xs) = {v. most_frequent xs v}"
  by (auto simp: mode_def most_frequent_def)

lemma sorted_mode: "sorted (mode xs)"
  by (simp add: mode_def)

lemma mode_first_least:
  assumes "xs \<noteq> []"
  shows "most_frequent xs (mode_first xs) \<and> (\<forall>v. most_frequent xs v \<longrightarrow> mode_first xs \<le> v)"
proof -
  from most_frequent_exists [OF assms] have "mode xs \<noteq> []"
    using set_mode [of xs] by (metis empty_Collect_eq empty_set)
  then obtain m ms where m: "mode xs = m # ms" by (cases "mode xs") auto
  then have mf: "mode_first xs = m" by (simp add: mode_first_def)
  from m have "m \<in> set (mode xs)" by simp
  then have 1: "most_frequent xs m" by (simp add: set_mode)
  have 2: "m \<le> v" if "most_frequent xs v" for v
  proof -
    from that have "v \<in> set (m # ms)" unfolding m [symmetric] by (simp add: set_mode)
    moreover from sorted_mode [of xs] have "sorted (m # ms)" by (simp add: m)
    ultimately show ?thesis by auto
  qed
  from 1 2 show ?thesis by (simp add: mf)
qed

lemma map_of_map_key:
  "k \<in> set ks \<Longrightarrow> (\<And>k. fst (f k) = k) \<Longrightarrow> map_of (map f ks) k = Some (snd (f k))"
  by (induction ks) (auto simp: prod_eq_iff)

lemma fst_contract_entry: "fst (contract_entry lib df k) = k"
  by (simp add: contract_entry_def Let_def)

lemma group_keys_Contract_derived:
  "group_keys Contract_number (map (derived_row df) rs) = group_keys Contract_number rs"
  by (simp add: group_keys_def comp_def derived_row_simps)

lemma first_valid_first_not_missing:
  "first_valid lib vs =
     (case first_not_missing vs of
        Some v \<Rightarrow> v
      | None \<Rightarrow> if first_none lib then PyNone else PyNaN)"
proof (induction vs)
  case Nil
  show ?case by (simp add: first_valid_def first_not_missing_def)
next
  case (Cons v vs)
  show ?case
  proof (cases "isna v")
    case True
    then have "first_valid lib (v # vs) = first_valid lib vs"
      "first_not_missing (v # vs) = first_not_missing vs"
      by (simp_all add: first_valid_def first_not_missing_def)
    with Cons show ?thesis by simp
  next
    case False
    then show ?thesis by (simp add: first_valid_def first_not_missing_def)
  qed
qed

text \<open>
  Claim C6, amended. For every contract number of the table, the summary of the contract
  has as plan type a most frequent plan type among the records of the contract, and among
  the most frequent ones the least in the order of strings (DSNP, HMO, Other, PPO), not the
  first encountered; its parent organization is the first value of the records of the
  contract that is not missing, which is the value of the first record when no record
  lacks it, and it is the missing value of the library (\<^verbatim>\<open>None\<close> or \<^verbatim>\<open>nan\<close>) when every
  record lacks it.
\<close>

theorem contract_summary_mode:
  assumes "aggregate_enrollment lib df = Inr snap"
    and "k \<in> set (group_keys Contract_number (rows df))"
  shows "\<exists>c. map_of (contracts snap) k = Some c \<and>
     most_frequent (contract_plan_types df k) (ci_plan_type c) \<and>
     (\<forall>v. most_frequent (contract_plan_types df k) v \<longrightarrow> ci_plan_type c \<le> v) \<and>
     (case first_not_missing (map (\<lambda>r. cell r Parent_org) (contract_rows df k)) of
        Some v \<Rightarrow> ci_parent_org c = v
      | None \<Rightarrow> ci_parent_org c = (if first_none lib then PyNone else PyNaN)) \<and>
     (list_all (\<lambda>r. \<not> isna (cell r Parent_org)) (contract_rows df k) \<longrightarrow>
        ci_parent_org c = cell (hd (contract_rows df k)) Parent_org)"
proof -
  note d = aggregate_enrollment_derived [OF assms(1)]
  let ?df = "derived_frame df"
  let ?c = "snd (contract_entry lib ?df k)"
  let ?vs = "map (\<lambda>r. cell r Parent_org) (contract_rows df k)"
  have ks: "k \<in> set (group_keys Contract_number (rows ?df))"
    using assms(2) by (simp add: rows_derived_frame group_keys_Contract_derived)
  have m: "map_of (contracts snap) k = Some ?c"
    unfolding d(1) using ks
    by (simp add: snapshot_of_def map_of_map_key fst_contract_entry)
  from ks obtain r where r: "r \<in> set (rows ?df)" "cell r Contract_number = PyStr k"
    by (auto simp: set_group_keys)
  then have rin: "r \<in> set (contract_rows df k)"
    by (simp add: contract_rows_def group_rows_def)
  then have grp: "contract_rows df k \<noteq> []" by auto
  from r(1) obtain r0 where "r0 \<in> set (rows df)" "r = derived_row df r0"
    by (auto simp: rows_derived_frame)
  with d(2) obtain p where "cell r Plan_type = PyStr p" by blast
  with rin have "p \<in> set (contract_plan_types df k)"
    by (force simp: contract_plan_types_def set_strs)
  then have ne: "contract_plan_types df k \<noteq> []" by auto
  have pt: "ci_plan_type ?c = mode_first (contract_plan_types df k)"
    by (simp add: contract_entry_def Let_def contract_plan_types_def contract_rows_def)
  have po: "ci_parent_org ?c = first_valid lib ?vs"
    by (simp add: contract_entry_def Let_def contract_rows_def)
  have fnm: "case first_not_missing ?vs of
        Some v \<Rightarrow> ci_parent_org ?c = v
      | None \<Rightarrow> ci_parent_org ?c = (if first_none lib then PyNone else PyNaN)"
    unfolding po first_valid_first_not_missing [of lib ?vs]
    by (simp split: option.splits)
  have hd: "ci_parent_org ?c = cell (hd (contract_rows df k)) Parent_org"
    if "list_all (\<lambda>r. \<not> isna (cell r Parent_org)) (contract_rows df k)"
  proof -
    from that have "filter (\<lambda>v. \<not> isna v) ?vs = ?vs"
      by (intro filter_all) (auto simp: list_all_iff)
    with grp show ?thesis
      unfolding po by (cases "contract_rows df k") (simp_all add: first_valid_def)
  qed
  from mode_first_least [OF ne] have mf: "most_frequent (contract_plan_types df k) (ci_plan_type ?c)"
    "\<forall>v. most_frequent (contract_plan_types df k) v \<longrightarrow> ci_plan_type ?c \<le> v"
    by (simp_all add: pt)
  show ?thesis
    by (intro exI [of _ ?c] conjI impI) (rule m mf fnm hd, assumption?)+
qed

theorem contract_summary_mode_witness:
  "\<not> isl (aggregate_enrollment tuple_keys_lib late_organization_table) \<and>
   group_keys Contract_number (rows late_organization_table) = [''H1234'', ''H5678''] \<and>
   map (\<lambda>r. cell r Parent_org) (contract_rows late_organization_table ''H1234'') =
     [PyNaN, PyStr ''Acme'', PyStr ''Zenith''] \<and>
   map (\<lambda>r. cell r Parent_org) (contract_rows late_organization_table ''H5678'') = [PyNaN] \<and>
   contract_plan_types late_organization_table ''H1234'' = [''PPO'', ''HMO'', ''HMO''] \<and>
   map_sum id (\<lambda>s. map (\<lambda>kc. (fst kc, ci_plan_type (snd kc), ci_parent_org (snd kc))) (contracts s))
     (aggregate_enrollment tuple_keys_lib late_organization_table) =
     Inr [(''H1234'', ''HMO'', PyStr ''Acme''), (''H5678'', ''HMO'', PyNone)] \<and>
   map_sum id (\<lambda>s. map (\<lambda>kc. (fst kc, ci_plan_type (snd kc), ci_parent_org (snd kc))) (contracts s))
     (aggregate_enrollment bare_keys_lib late_organization_table) =
     Inr [(''H1234'', ''HMO'', PyStr ''Acme''), (''H5678'', ''HMO'', PyNaN)] \<and>
   (\<exists>s c. aggregate_enrollment tuple_keys_lib late_organization_table = Inr s \<and>
      map_of (contracts s) ''H1234'' = Some c \<and> ci_parent_org c = PyStr ''Acme'' \<and>
      most_frequent [''PPO'', ''HMO'', ''HMO''] (ci_plan_type c)) \<and>
   (\<exists>s c. aggregate_enrollment tuple_keys_lib late_organization_table = Inr s \<and>
      map_of (contracts s) ''H5678'' = Some c \<and> ci_parent_org c = PyNone) \<and>
   (\<exists>s c. aggregate_enrollment bare_keys_lib late_organization_table = Inr s \<and>
      map_of (contracts s) ''H5678'' = Some c \<and> ci_parent_org c = PyNaN) \<and>
   \<not> isl (aggregate_enrollment tuple_keys_lib tie_table) \<and>
   group_keys Contract_number (rows tie_table) = [''H1234''] \<and>
   contract_plan_types tie_table ''H1234'' = [''PPO'', ''HMO''] \<and>
   (\<exists>s c. aggregate_enrollment tuple_keys_lib tie_table = Inr s \<and>
      map_of (contracts s) ''H1234'' = Some c \<and>
      most_frequent [''PPO'', ''HMO''] (ci_plan_type c) \<and> ci_plan_type c \<le> ''PPO'' \<and>
      ci_parent_org c = PyStr ''Acme'') \<and>
   map_sum id (\<lambda>s. map (\<lambda>kc. (fst kc, ci_plan_type (snd kc), ci_parent_org (snd kc))) (contracts s))
     (aggregate_enrollment tuple_keys_lib tie_table) = Inr [(''H1234'', ''HMO'', PyStr ''Acme'')]"
proof -
  have i: "\<not> isl (aggregate_enrollment tuple_keys_lib late_organization_table)"
    "\<not> isl (aggregate_enrollment bare_keys_lib late_organization_table)"
    "\<not> isl (aggregate_enrollment tuple_keys_lib tie_table)"
    by code_simp+
  then obtain s1 s2 s3 where a: "aggregate_enrollment tuple_keys_lib late_organization_table = Inr s1"
    "aggregate_enrollment bare_keys_lib late_organization_table = Inr s2"
    "aggregate_enrollment tuple_keys_lib tie_table = Inr s3"
    by (metis sum.collapse(2))
  have g: "group_keys Contract_number (rows late_organization_table) = [''H1234'', ''H5678'']"
    "group_keys Contract_number (rows tie_table) = [''H1234'']"
    by code_simp+
  have v: "map (\<lambda>r. cell r Parent_org) (contract_rows late_organization_table ''H1234'') =
     [PyNaN, PyStr ''Acme'', PyStr ''Zenith'']"
    "map (\<lambda>r. cell r Parent_org) (contract_rows late_organization_table ''H5678'') = [PyNaN]"
    "map (\<lambda>r. cell r Parent_org) (contract_rows tie_table ''H1234'') =
     [PyStr ''Acme'', PyStr ''Acme'']"
    by code_simp+
  have p: "contract_plan_types late_organization_table ''H1234'' = [''PPO'', ''HMO'', ''HMO'']"
    "contract_plan_types tie_table ''H1234'' = [''PPO'', ''HMO'']"
    by code_simp+
  have c: "map_sum id (\<lambda>s. map (\<lambda>kc. (fst kc, ci_plan_type (snd kc), ci_parent_org (snd kc))) (contracts s))
     (aggregate_enrollment tuple_keys_lib late_organization_table) =
     Inr [(''H1234'', ''HMO'', PyStr ''Acme''), (''H5678'', ''HMO'', PyNone)]"
    "map_sum id (\<lambda>s. map (\<lambda>kc. (fst kc, ci_plan_type (snd kc), ci_parent_org (snd kc))) (contracts s))
     (aggregate_enrollment bare_keys_lib late_organization_table) =
     Inr [(''H1234'', ''HMO'', PyStr ''Acme''), (''H5678'', ''HMO'', PyNaN)]"
    "map_sum id (\<lambda>s. map (\<lambda>kc. (fst kc, ci_plan_type (snd kc), ci_parent_org (snd kc))) (contracts s))
     (aggregate_enrollment tuple_keys_lib tie_table) = Inr [(''H1234'', ''HMO'', PyStr ''Acme'')]"
    by code_simp+
  have f: "first_not_missing [PyNaN, PyStr ''Acme'', PyStr ''Zenith''] = Some (PyStr ''Acme'')"
    "first_not_missing [PyNaN] = None"
    "first_not_missing [PyStr ''Acme'', PyStr ''Acme''] = Some (PyStr ''Acme'')"
    by (simp_all add: first_not_missing_def)
  have l: "first_none tuple_keys_lib" "\<not> first_none bare_keys_lib"
    by (simp_all add: tuple_keys_lib_def bare_keys_lib_def)
  have m: "most_frequent [''PPO'', ''HMO''] ''PPO''" by code_simp
  from contract_summary_mode [OF a(1), of "''H1234''"] obtain c1 where
    c1: "map_of (contracts s1) ''H1234'' = Some c1" "ci_parent_org c1 = PyStr ''Acme''"
      "most_frequent [''PPO'', ''HMO'', ''HMO''] (ci_plan_type c1)"
    by (auto simp: g v p f)
  from contract_summary_mode [OF a(1), of "''H5678''"] obtain c2 where
    c2: "map_of (contracts s1) ''H5678'' = Some c2" "ci_parent_org c2 = PyNone"
    by (auto simp: g v f l)
  from contract_summary_mode [OF a(2), of "''H5678''"] obtain c3 where
    c3: "map_of (contracts s2) ''H5678'' = Some c3" "ci_parent_org c3 = PyNaN"
    by (auto simp: g v f l)
  from contract_summary_mode [OF a(3), of "''H1234''"] m obtain c4 where
    c4: "map_of (contracts s3) ''H1234'' = Some c4" "ci_parent_org c4 = PyStr ''Acme''"
      "most_frequent [''PPO'', ''HMO''] (ci_plan_type c4)" "ci_plan_type c4 \<le> ''PPO''"
    by (auto simp: g v p f)
  have e1: "\<exists>s c. aggregate_enrollment tuple_keys_lib late_organization_table = Inr s \<and>
      map_of (contracts s) ''H1234'' = Some c \<and> ci_parent_org c = PyStr ''Acme'' \<and>
      most_frequent [''PPO'', ''HMO'', ''HMO''] (ci_plan_type c)"
    using a(1) c1 by blast
  have e2: "\<exists>s c. aggregate_enrollment tuple_keys_lib late_organization_table = Inr s \<and>
      map_of (contracts s) ''H5678'' = Some c \<and> ci_parent_org c = PyNone"
    using a(1) c2 by blast
  have e3: "\<exists>s c. aggregate_enrollment bare_keys_lib late_organization_table = Inr s \<and>
      map_of (contracts s) ''H5678'' = Some c \<and> ci_parent_org c = PyNaN"
    using a(2) c3 by blast
  have e4: "\<exists>s c. aggregate_enrollment tuple_keys_lib tie_table = Inr s \<and>
      map_of (contracts s) ''H1234'' = Some c \<and>
      most_frequent [''PPO'', ''HMO''] (ci_plan_type c) \<and> ci_plan_type c \<le> ''PPO'' \<and>
      ci_parent_org c = PyStr ''Acme''"
    using a(3) c4 by blast
  show ?thesis
    by (intro conjI) (rule i g v p c e1 e2 e3 e4)+
qed

text \<open>
  The records of H1234 are a PPO and then an HMO plan, once each: the summary says HMO,
  the first encountered is PPO.
\<close>

theorem contract_summary_first_encountered_counterexample:
  "contract_plan_types tie_table ''H1234'' = [''PPO'', ''HMO''] \<and>
   count_list [''PPO'', ''HMO''] ''PPO'' = count_list [''PPO'', ''HMO''] ''HMO'' \<and>
   map_sum id (\<lambda>s. map (\<lambda>kc. (fst kc, ci_plan_type (snd kc))) (contracts s))
     (aggregate_enrollment tuple_keys_lib tie_table) = Inr [(''H1234'', ''HMO'')]"
  by code_simp
end
